theory Spec2Isabelle
  imports Complex_Main "HOL-Library.Sublist" "HOL-Library.AList" "HOL-Library.Word"
begin

section \<open>JavaScript values\<close>

text \<open>
  The server of \<^verbatim>\<open>src/index.js\<close> works on values that come out of \<^verbatim>\<open>JSON.parse\<close>.
  A JSON value is a tree; the value \<^verbatim>\<open>undefined\<close> (a missing property) is \<open>None\<close> of
  \<open>jsval\<close>. An object lists its properties in insertion order. The code never computes
  with a number: it only tests one for zero (falsiness) and passes it on.
\<close>

datatype json =
    JNull
  | JBool bool
  | JNum rat
  | JStr string
  | JArr "json list"
  | JObj "(string \<times> json) list"

type_synonym jsval = "json option"

text \<open>The two exceptions the code can raise: a failed \<^verbatim>\<open>JSON.parse\<close>, and a property
  read on \<^verbatim>\<open>null\<close>/\<^verbatim>\<open>undefined\<close> or a call of something that is not a function.\<close>

datatype exn = SyntaxError | TypeError

text \<open>Truthiness, as \<^verbatim>\<open>!x\<close>, \<^verbatim>\<open>x || y\<close> and \<^verbatim>\<open>x ? a : b\<close> test it.\<close>

definition truthy :: "jsval \<Rightarrow> bool" where
  "truthy v =
     (case v of
        None \<Rightarrow> False
      | Some JNull \<Rightarrow> False
      | Some (JBool b) \<Rightarrow> b
      | Some (JNum n) \<Rightarrow> n \<noteq> 0
      | Some (JStr s) \<Rightarrow> s \<noteq> []
      | Some (JArr _) \<Rightarrow> True
      | Some (JObj _) \<Rightarrow> True)"

text \<open>
  Property read \<^verbatim>\<open>v.k\<close> on a value that is not \<^verbatim>\<open>null\<close>. The property names the
  code reads (\<^verbatim>\<open>event\<close>, \<^verbatim>\<open>data\<close>, \<^verbatim>\<open>channel\<close>, \<^verbatim>\<open>auth\<close>, \<^verbatim>\<open>channel_data\<close>,
  \<^verbatim>\<open>user_id\<close>, \<^verbatim>\<open>user_info\<close>) exist on no string, number, boolean or array, so the
  read gives \<^verbatim>\<open>undefined\<close> there. A read on \<^verbatim>\<open>null\<close> raises; each caller tests for
  \<open>JNull\<close> before it reads.
\<close>

definition get_prop :: "json \<Rightarrow> string \<Rightarrow> jsval" where
  "get_prop v k = (case v of JObj kvs \<Rightarrow> map_of kvs k | _ \<Rightarrow> None)"

text \<open>\<^verbatim>\<open>JSON.stringify\<close> leaves out a property whose value is \<^verbatim>\<open>undefined\<close> (or a
  function), and writes \<^verbatim>\<open>null\<close> for an \<^verbatim>\<open>undefined\<close> array element.\<close>

fun js_object :: "(string \<times> jsval) list \<Rightarrow> (string \<times> json) list" where
  "js_object [] = []"
| "js_object ((k, None) # fs) = js_object fs"
| "js_object ((k, Some v) # fs) = (k, v) # js_object fs"

definition js_array :: "jsval list \<Rightarrow> json list" where
  "js_array vs = map (\<lambda>v. case v of None \<Rightarrow> JNull | Some x \<Rightarrow> x) vs"

definition startsWith :: "string \<Rightarrow> string \<Rightarrow> bool" where
  "startsWith s p = prefix p s"

text \<open>\<^verbatim>\<open>s.split(":")\<close>: the fields between the separators; never the empty array.\<close>

fun str_split :: "char \<Rightarrow> string \<Rightarrow> string list" where
  "str_split c [] = [[]]"
| "str_split c (x # xs) =
     (if x = c then [] # str_split c xs
      else (case str_split c xs of
              [] \<Rightarrow> [[x]]
            | f # fs \<Rightarrow> (x # f) # fs))"

text \<open>A JavaScript \<^verbatim>\<open>Set\<close> of strings iterates in insertion order: a list without
  repetition. \<^verbatim>\<open>add\<close> appends a new element, \<^verbatim>\<open>delete\<close> removes it.\<close>

definition set_add :: "string \<Rightarrow> string list \<Rightarrow> string list" where
  "set_add x xs = (if x \<in> set xs then xs else xs @ [x])"

definition set_delete :: "string \<Rightarrow> string list \<Rightarrow> string list" where
  "set_delete x xs = removeAll x xs"


section \<open>The runtime and the configuration\<close>

text \<open>
  What the code takes from its host is a parameter of the model: the two configured
  strings of \<^verbatim>\<open>this.env\<close>, \<^verbatim>\<open>JSON.parse\<close> (\<open>None\<close> when it raises SyntaxError),
  \<^verbatim>\<open>JSON.stringify\<close>, the string conversion of a number, array or object (in a template
  literal and in the argument of \<^verbatim>\<open>JSON.parse\<close>), and the raw HMAC-SHA256 digest of
  \<^verbatim>\<open>crypto.subtle.sign\<close>.
\<close>

record env =
  PUSHER_APP_KEY :: string
  PUSHER_APP_SECRET :: string
  json_parse :: "string \<Rightarrow> json option"
  json_stringify :: "json \<Rightarrow> string"
  to_string :: "json \<Rightarrow> string"
  hmac_sha256 :: "string \<Rightarrow> string \<Rightarrow> 8 word list"

definition js_to_string :: "env \<Rightarrow> jsval \<Rightarrow> string" where
  "js_to_string e v =
     (case v of
        None \<Rightarrow> ''undefined''
      | Some JNull \<Rightarrow> ''null''
      | Some (JBool b) \<Rightarrow> (if b then ''true'' else ''false'')
      | Some (JStr s) \<Rightarrow> s
      | Some x \<Rightarrow> to_string e x)"

text \<open>\<^verbatim>\<open>hmac\<close> (lines 14-26): every byte of the digest as two lowercase hex digits.\<close>

definition hex_digit :: "nat \<Rightarrow> char" where
  "hex_digit n = ''0123456789abcdef'' ! n"

definition hex_byte :: "8 word \<Rightarrow> string" where
  "hex_byte b = [hex_digit (unat b div 16), hex_digit (unat b mod 16)]"

definition hmac :: "env \<Rightarrow> string \<Rightarrow> string \<Rightarrow> string" where
  "hmac e secret msg = concat (map hex_byte (hmac_sha256 e secret msg))"

section \<open>The state of the Durable Object\<close>

text \<open>
  \<^verbatim>\<open>this.clients\<close>, \<^verbatim>\<open>this.channels\<close> and \<^verbatim>\<open>this.presence\<close> (lines 35-40). A client's
  socket is named by its socket id: a frame sent on \<^verbatim>\<open>client.ws\<close> is recorded as a pair
  of the socket id and the object that \<^verbatim>\<open>JSON.stringify\<close> serialises. A presence map is
  a JavaScript \<^verbatim>\<open>Map\<close>: an association list in insertion order, in which \<^verbatim>\<open>set\<close> on a
  key already there keeps its place.

  A \<^verbatim>\<open>Map\<close> compares its keys as JavaScript does: strings, numbers, booleans, \<^verbatim>\<open>null\<close>
  and \<^verbatim>\<open>undefined\<close> by value, arrays and objects by identity. A user id is therefore a
  value together with its identity: the reference of the array or object, and \<open>None\<close>
  for a value that has none. Every parse of channel data makes new arrays and objects;
  \<open>next_ref\<close> is the reference the next one gets. Two user ids are the same key exactly
  when the pairs are equal.
\<close>

type_synonym user_id = "nat option \<times> jsval"

definition is_reference :: "jsval \<Rightarrow> bool" where
  "is_reference v = (case v of Some (JArr _) \<Rightarrow> True | Some (JObj _) \<Rightarrow> True | _ \<Rightarrow> False)"

record client =
  cl_channels :: "string list"
  cl_user :: "(user_id \<times> jsval) option"

record state =
  clients :: "string \<rightharpoonup> client"
  channels :: "string \<rightharpoonup> string list"
  presence :: "string \<rightharpoonup> (user_id \<times> jsval) list"
  next_ref :: nat

type_synonym frames = "(string \<times> json) list"

text \<open>
  An operation returns the state it leaves, the frames it has sent, in order, and the
  exception that ended it, if one did: an exception undoes nothing. \<^verbatim>\<open>ws.send\<close> does not
  raise. An operation runs from its call to its end in one step, except that
  \<^verbatim>\<open>subscribe\<close> waits for the digest at line 144: what happens when another operation
  runs while it waits is the subject of \<open>subscribe_suspends\<close> and \<open>subscribe_resume\<close>
  below.
\<close>

type_synonym outcome = "state \<times> frames \<times> exn option"

definition init_state :: state where
  "init_state =
     \<lparr>clients = Map.empty, channels = Map.empty, presence = Map.empty, next_ref = 0\<rparr>"

text \<open>The loop \<^verbatim>\<open>for (const sid of set) { if (skip) continue; this.clients.get(sid)?.ws.send(f) }\<close>.\<close>

definition fan_out :: "state \<Rightarrow> string list \<Rightarrow> (string \<Rightarrow> bool) \<Rightarrow> json \<Rightarrow> frames" where
  "fan_out st sids skip f =
     map (\<lambda>sid. (sid, f)) (filter (\<lambda>sid. \<not> skip sid \<and> clients st sid \<noteq> None) sids)"

section \<open>Connecting\<close>

definition connection_established :: "env \<Rightarrow> string \<Rightarrow> json" where
  "connection_established e socketId =
     JObj [(''event'', JStr ''pusher:connection_established''),
           (''data'', JStr (json_stringify e
              (JObj [(''socket_id'', JStr socketId), (''activity_timeout'', JNum 120)])))]"

text \<open>\<^verbatim>\<open>acceptWebSocket\<close> (lines 77-91).\<close>

definition acceptWebSocket :: "env \<Rightarrow> state \<Rightarrow> string \<Rightarrow> outcome" where
  "acceptWebSocket e st socketId =
     (st\<lparr>clients := (clients st)(socketId \<mapsto> \<lparr>cl_channels = [], cl_user = None\<rparr>)\<rparr>,
      [(socketId, connection_established e socketId)],
      None)"

section \<open>Subscribe\<close>

definition error_frame :: "string \<Rightarrow> json" where
  "error_frame m =
     JObj [(''event'', JStr ''pusher:error''),
           (''data'', JObj [(''message'', JStr m), (''code'', JNum 4009)])]"

definition auth_required :: "string \<Rightarrow> bool" where
  "auth_required channel \<longleftrightarrow> startsWith channel ''private-'' \<or> startsWith channel ''presence-''"

definition is_presence :: "string \<Rightarrow> bool" where
  "is_presence channel \<longleftrightarrow> startsWith channel ''presence-''"

text \<open>The string signed for a subscription (line 143).\<close>

definition auth_base :: "env \<Rightarrow> string \<Rightarrow> string \<Rightarrow> json \<Rightarrow> string" where
  "auth_base e socketId channel payload =
     socketId @ '':'' @ channel @
       (if truthy (get_prop payload ''channel_data'')
        then '':'' @ js_to_string e (get_prop payload ''channel_data'') else '''')"

text \<open>
  The authorisation of lines 130-150: \<open>Inr None\<close> when it passes, \<open>Inr (Some m)\<close> when
  the error with message \<open>m\<close> is sent, \<open>Inl TypeError\<close> when \<^verbatim>\<open>payload.auth\<close> is truthy
  and has no \<^verbatim>\<open>split\<close> method (it is not a string).
\<close>

definition auth_check :: "env \<Rightarrow> string \<Rightarrow> string \<Rightarrow> json \<Rightarrow> exn + string option" where
  "auth_check e socketId channel payload =
     (if \<not> truthy (get_prop payload ''auth'') then Inr (Some ''Auth required'')
      else
        (case get_prop payload ''auth'' of
           Some (JStr a) \<Rightarrow>
             (let parts = str_split CHR '':'' a;
                  key = (case parts of [] \<Rightarrow> None | k # _ \<Rightarrow> Some k);
                  signature = (case parts of _ # s # _ \<Rightarrow> Some s | _ \<Rightarrow> None)
              in if key \<noteq> Some (PUSHER_APP_KEY e) then Inr (Some ''Invalid key'')
                 else
                   (let expected = hmac e (PUSHER_APP_SECRET e) (auth_base e socketId channel payload)
                    in if signature \<noteq> Some expected then Inr (Some ''Invalid signature'')
                       else Inr None))
         | _ \<Rightarrow> Inl TypeError))"

text \<open>
  The user id that a parse of channel data yields: the value of \<^verbatim>\<open>user_id\<close>, with a new
  reference when it is an array or an object.
\<close>

definition parsed_user_id :: "state \<Rightarrow> json \<Rightarrow> user_id" where
  "parsed_user_id st channelData =
     (if is_reference (get_prop channelData ''user_id'') then Some (next_ref st) else None,
      get_prop channelData ''user_id'')"

text \<open>Lines 151-156: the identity of a presence subscriber, and its presence entry.\<close>

definition presence_join ::
  "env \<Rightarrow> state \<Rightarrow> string \<Rightarrow> client \<Rightarrow> string \<Rightarrow> json \<Rightarrow> exn + (state \<times> client)" where
  "presence_join e st socketId cl channel payload =
     (case json_parse e (js_to_string e (get_prop payload ''channel_data'')) of
        None \<Rightarrow> Inl SyntaxError
      | Some channelData \<Rightarrow>
          if channelData = JNull then Inl TypeError
          else
            (let uid = parsed_user_id st channelData;
                 info = get_prop channelData ''user_info'';
                 cl1 = cl\<lparr>cl_user := Some (uid, info)\<rparr>;
                 members = (case presence st channel of None \<Rightarrow> [] | Some m \<Rightarrow> m)
             in Inr (st\<lparr>clients := (clients st)(socketId \<mapsto> cl1),
                        presence := (presence st)(channel \<mapsto> AList.update uid info members),
                        next_ref := Suc (next_ref st)\<rparr>,
                     cl1)))"

text \<open>Lines 159-161.\<close>

definition add_subscription :: "state \<Rightarrow> string \<Rightarrow> client \<Rightarrow> string \<Rightarrow> state \<times> client" where
  "add_subscription st socketId cl channel =
     (let subs = (case channels st channel of None \<Rightarrow> [] | Some s \<Rightarrow> s);
          cl1 = cl\<lparr>cl_channels := set_add channel (cl_channels cl)\<rparr>
      in (st\<lparr>channels := (channels st)(channel \<mapsto> set_add socketId subs),
             clients := (clients st)(socketId \<mapsto> cl1)\<rparr>,
          cl1))"

text \<open>
  The order in which an object lists its properties: first the names that are array
  indices (a decimal numeral without a leading zero, below \<open>2^32 - 1\<close>) in ascending
  order, then the other names in the order they were added.
\<close>

definition digit_value :: "char \<Rightarrow> nat option" where
  "digit_value c = (if c \<in> set ''0123456789'' then Some (of_char c - 48) else None)"

fun decimal :: "nat \<Rightarrow> string \<Rightarrow> nat option" where
  "decimal acc [] = Some acc"
| "decimal acc (c # cs) =
     (case digit_value c of None \<Rightarrow> None | Some d \<Rightarrow> decimal (acc * 10 + d) cs)"

definition array_index :: "string \<Rightarrow> nat option" where
  "array_index s =
     (case s of
        [] \<Rightarrow> None
      | c # cs \<Rightarrow>
          if c = CHR ''0'' \<and> cs \<noteq> [] then None
          else (case decimal 0 s of
                  None \<Rightarrow> None
                | Some n \<Rightarrow> if n < 4294967295 then Some n else None))"

definition property_order :: "(string \<times> 'a) list \<Rightarrow> (string \<times> 'a) list" where
  "property_order kvs =
     sort_key (\<lambda>kv. case array_index (fst kv) of None \<Rightarrow> 0 | Some n \<Rightarrow> n)
       (filter (\<lambda>kv. array_index (fst kv) \<noteq> None) kvs)
     @ filter (\<lambda>kv. array_index (fst kv) = None) kvs"

text \<open>
  \<^verbatim>\<open>Object.fromEntries(members.entries())\<close>: the keys become property names, a later
  entry of the same name overwrites the value of the earlier one, and the object lists
  the properties in its own order.
\<close>

definition from_entries :: "env \<Rightarrow> (user_id \<times> jsval) list \<Rightarrow> (string \<times> jsval) list" where
  "from_entries e members =
     property_order
       (foldl (\<lambda>acc (k, v). AList.update (js_to_string e (snd k)) v acc) [] members)"

text \<open>\<^verbatim>\<open>[...members.keys()]\<close>: the values of the user ids.\<close>

definition member_ids :: "(user_id \<times> jsval) list \<Rightarrow> jsval list" where
  "member_ids members = map (\<lambda>m. snd (fst m)) members"

definition presence_snapshot :: "env \<Rightarrow> (user_id \<times> jsval) list \<Rightarrow> json" where
  "presence_snapshot e members =
     JObj [(''presence'',
        JObj [(''ids'', JArr (js_array (member_ids members))),
              (''hash'', JObj (js_object (from_entries e members))),
              (''count'', JNum (of_nat (length (member_ids members))))])]"

definition presence_succeeded_internal :: "env \<Rightarrow> string \<Rightarrow> (user_id \<times> jsval) list \<Rightarrow> json" where
  "presence_succeeded_internal e channel members =
     JObj [(''event'', JStr ''pusher_internal:subscription_succeeded''),
           (''channel'', JStr channel),
           (''data'', JStr (json_stringify e (presence_snapshot e members)))]"

definition presence_succeeded :: "string \<Rightarrow> nat \<Rightarrow> json" where
  "presence_succeeded channel count =
     JObj [(''event'', JStr ''pusher:subscription_succeeded''),
           (''channel'', JStr channel),
           (''members'', JObj [(''count'', JNum (of_nat count))])]"

definition member_added :: "env \<Rightarrow> string \<Rightarrow> jsval \<Rightarrow> jsval \<Rightarrow> json" where
  "member_added e channel uid info =
     JObj [(''event'', JStr ''pusher_internal:member_added''),
           (''channel'', JStr channel),
           (''data'', JStr (json_stringify e
              (JObj (js_object [(''user_id'', uid), (''user_info'', info)]))))]"

definition succeeded_internal :: "string \<Rightarrow> json" where
  "succeeded_internal channel =
     JObj [(''event'', JStr ''pusher_internal:subscription_succeeded''),
           (''channel'', JStr channel), (''data'', JStr ''{}'')]"

definition succeeded :: "string \<Rightarrow> json" where
  "succeeded channel =
     JObj [(''event'', JStr ''pusher:subscription_succeeded''),
           (''channel'', JStr channel), (''data'', JStr ''{}'')]"

text \<open>
  Lines 163-199: the acknowledgments, and on a presence channel the member-added
  events. Reading \<^verbatim>\<open>client.user.id\<close> without an identity, or iterating a channel that
  has no entry, would raise at the first frame of the loop.
\<close>

definition subscribe_frames :: "env \<Rightarrow> state \<Rightarrow> string \<Rightarrow> client \<Rightarrow> string \<Rightarrow> frames \<times> exn option" where
  "subscribe_frames e st socketId cl channel =
     (if is_presence channel then
        (let members = (case presence st channel of None \<Rightarrow> [] | Some m \<Rightarrow> m);
             acks = [(socketId, presence_succeeded_internal e channel members),
                     (socketId, presence_succeeded channel (length (member_ids members)))]
         in case channels st channel of
              None \<Rightarrow> (acks, Some TypeError)
            | Some subs \<Rightarrow>
                (case cl_user cl of
                   None \<Rightarrow>
                     (acks, if fan_out st subs (\<lambda>sid. sid = socketId) JNull = []
                            then None else Some TypeError)
                 | Some (uid, info) \<Rightarrow>
                     (acks @ fan_out st subs (\<lambda>sid. sid = socketId)
                               (member_added e channel (snd uid) info),
                      None)))
      else ([(socketId, succeeded_internal channel), (socketId, succeeded channel)], None))"

text \<open>Lines 159-199, once the request is authorised.\<close>

definition join :: "env \<Rightarrow> state \<Rightarrow> string \<Rightarrow> client \<Rightarrow> string \<Rightarrow> outcome" where
  "join e st socketId cl channel =
     (case add_subscription st socketId cl channel of
        (st1, cl1) \<Rightarrow>
          (case subscribe_frames e st1 socketId cl1 channel of
             (out, x) \<Rightarrow> (st1, out, x)))"

text \<open>\<^verbatim>\<open>subscribe\<close> (lines 124-200).\<close>

definition subscribe :: "env \<Rightarrow> state \<Rightarrow> string \<Rightarrow> json \<Rightarrow> outcome" where
  "subscribe e st socketId payload =
     (if payload = JNull then (st, [], Some TypeError)
      else
        (case clients st socketId of
           None \<Rightarrow> (st, [], None)
         | Some cl \<Rightarrow>
             (case get_prop payload ''channel'' of
                Some (JStr channel) \<Rightarrow>
                  if auth_required channel then
                    (case auth_check e socketId channel payload of
                       Inl x \<Rightarrow> (st, [], Some x)
                     | Inr (Some m) \<Rightarrow> (st, [(socketId, error_frame m)], None)
                     | Inr None \<Rightarrow>
                         if is_presence channel then
                           (case presence_join e st socketId cl channel payload of
                              Inl x \<Rightarrow> (st, [], Some x)
                            | Inr (st1, cl1) \<Rightarrow> join e st1 socketId cl1 channel)
                         else join e st socketId cl channel)
                  else join e st socketId cl channel
              | _ \<Rightarrow> (st, [], Some TypeError))))"

text \<open>
  \<^verbatim>\<open>subscribe\<close> above is the call run from its first line to its last. On a protected
  channel the code is not one step: at line 144 it waits for the digest
  (\<^verbatim>\<open>await hmac\<close>), and the object may run other operations before it goes on.

  \<open>subscribe_suspends\<close> tells whether a call reaches line 144, and with which channel:
  the session is registered, the channel is a string with a protected prefix, and the
  auth is a string whose first field is the key.

  \<open>subscribe_resume\<close> is the rest of the call, lines 145-200, in the state the object
  has when the call goes on. \<^verbatim>\<open>client\<close> is still the object that line 126 found and
  the code does not look it up again; \<open>cl\<close> is what that object holds by now. The
  object is the registered one when the registry holds it under the socket id. When
  it is not (the session has disconnected), lines 153 and 161 write to an object that
  the registry does not know, and lines 155 and 159-160 write to the presence store and
  to the channel index all the same.
\<close>

definition subscribe_suspends :: "env \<Rightarrow> state \<Rightarrow> string \<Rightarrow> json \<Rightarrow> string option" where
  "subscribe_suspends e st socketId payload =
     (if payload = JNull then None
      else
        (case clients st socketId of
           None \<Rightarrow> None
         | Some cl \<Rightarrow>
             (case get_prop payload ''channel'' of
                Some (JStr channel) \<Rightarrow>
                  if auth_required channel \<and> truthy (get_prop payload ''auth'') then
                    (case get_prop payload ''auth'' of
                       Some (JStr a) \<Rightarrow>
                         (case str_split CHR '':'' a of
                            [] \<Rightarrow> None
                          | k # _ \<Rightarrow> if k = PUSHER_APP_KEY e then Some channel else None)
                     | _ \<Rightarrow> None)
                  else None
              | _ \<Rightarrow> None)))"

definition subscribe_resume ::
  "env \<Rightarrow> state \<Rightarrow> string \<Rightarrow> client \<Rightarrow> string \<Rightarrow> json \<Rightarrow> outcome" where
  "subscribe_resume e st socketId cl channel payload =
     (let signature =
            (case get_prop payload ''auth'' of
               Some (JStr a) \<Rightarrow> (case str_split CHR '':'' a of _ # s # _ \<Rightarrow> Some s | _ \<Rightarrow> None)
             | _ \<Rightarrow> None);
          expected = hmac e (PUSHER_APP_SECRET e) (auth_base e socketId channel payload)
      in if signature \<noteq> Some expected
         then (st, [(socketId, error_frame ''Invalid signature'')], None)
         else
           (case (if is_presence channel then presence_join e st socketId cl channel payload
                  else Inr (st, cl)) of
              Inl x \<Rightarrow> (st, [], Some x)
            | Inr (st1, cl1) \<Rightarrow>
                (case join e st1 socketId cl1 channel of
                   (st2, out, x) \<Rightarrow>
                     ((if clients st socketId = Some cl then st2
                       else st2\<lparr>clients := clients st\<rparr>),
                      out, x))))"

section \<open>Unsubscribe and disconnect\<close>

definition member_removed :: "env \<Rightarrow> string \<Rightarrow> jsval \<Rightarrow> json" where
  "member_removed e channel uid =
     JObj [(''event'', JStr ''pusher_internal:member_removed''),
           (''channel'', JStr channel),
           (''data'', JStr (json_stringify e (JObj (js_object [(''user_id'', uid)]))))]"

text \<open>
  \<^verbatim>\<open>unsubscribe\<close> (lines 202-224). The channel comes from the wire and may be any value;
  one that is not a string is in no set and in no map, and \<^verbatim>\<open>channel.startsWith\<close>
  raises on it at line 211.
\<close>

definition unsubscribe :: "env \<Rightarrow> state \<Rightarrow> string \<Rightarrow> jsval \<Rightarrow> outcome" where
  "unsubscribe e st socketId channel =
     (case clients st socketId of
        None \<Rightarrow> (st, [], None)
      | Some cl \<Rightarrow>
          (case channel of
             Some (JStr c) \<Rightarrow>
               (let cl1 = cl\<lparr>cl_channels := set_delete c (cl_channels cl)\<rparr>;
                    st1 = st\<lparr>clients := (clients st)(socketId \<mapsto> cl1)\<rparr>;
                    set1 = map_option (set_delete socketId) (channels st1 c);
                    st2 = (case set1 of
                             None \<Rightarrow> st1
                           | Some s \<Rightarrow>
                               if length s = 0 then st1\<lparr>channels := (channels st1)(c := None)\<rparr>
                               else st1\<lparr>channels := (channels st1)(c \<mapsto> s)\<rparr>)
                in if is_presence c then
                     (case cl_user cl1 of
                        None \<Rightarrow> (st2, [], None)
                      | Some (uid, info) \<Rightarrow>
                          (let st3 = (case presence st2 c of
                                        None \<Rightarrow> st2
                                      | Some members \<Rightarrow>
                                          st2\<lparr>presence := (presence st2)(c \<mapsto> AList.delete uid members)\<rparr>)
                           in (st3,
                               fan_out st3 (case set1 of None \<Rightarrow> [] | Some s \<Rightarrow> s) (\<lambda>sid. False)
                                 (member_removed e c (snd uid)),
                               None)))
                   else (st2, [], None))
           | _ \<Rightarrow> (st, [], Some TypeError)))"

text \<open>The loop of \<^verbatim>\<open>onClose\<close> over a copy of the client's channels (lines 256-258).\<close>

fun unsubscribe_all :: "env \<Rightarrow> state \<Rightarrow> string \<Rightarrow> string list \<Rightarrow> outcome" where
  "unsubscribe_all e st socketId [] = (st, [], None)"
| "unsubscribe_all e st socketId (c # cs) =
     (case unsubscribe e st socketId (Some (JStr c)) of
        (st1, out1, Some x) \<Rightarrow> (st1, out1, Some x)
      | (st1, out1, None) \<Rightarrow>
          (case unsubscribe_all e st1 socketId cs of
             (st2, out2, x) \<Rightarrow> (st2, out1 @ out2, x)))"

text \<open>\<^verbatim>\<open>onClose\<close> (lines 253-260).\<close>

definition onClose :: "env \<Rightarrow> state \<Rightarrow> string \<Rightarrow> outcome" where
  "onClose e st socketId =
     (case clients st socketId of
        None \<Rightarrow> (st, [], None)
      | Some cl \<Rightarrow>
          (case unsubscribe_all e st socketId (cl_channels cl) of
             (st1, out, Some x) \<Rightarrow> (st1, out, Some x)
           | (st1, out, None) \<Rightarrow> (st1\<lparr>clients := (clients st1)(socketId := None)\<rparr>, out, None)))"

section \<open>Client events and broadcast\<close>

text \<open>
  \<^verbatim>\<open>clientEvent\<close> (lines 226-238). \<^verbatim>\<open>client.channels\<close> holds strings only, so a channel
  that is not a string fails the test of line 228.
\<close>

definition client_frame :: "string \<Rightarrow> string \<Rightarrow> string \<Rightarrow> client \<Rightarrow> json" where
  "client_frame event channel data cl =
     JObj (js_object
       [(''event'', Some (JStr event)), (''channel'', Some (JStr channel)),
        (''data'', Some (JStr data)),
        (''user_id'', (case cl_user cl of None \<Rightarrow> None | Some (uid, info) \<Rightarrow> snd uid))])"

definition clientEvent :: "env \<Rightarrow> state \<Rightarrow> string \<Rightarrow> jsval \<Rightarrow> string \<Rightarrow> string \<Rightarrow> outcome" where
  "clientEvent e st socketId channel event data =
     (case clients st socketId of
        None \<Rightarrow> (st, [], None)
      | Some cl \<Rightarrow>
          (case channel of
             Some (JStr c) \<Rightarrow>
               if c \<notin> set (cl_channels cl) then (st, [], None)
               else if \<not> startsWith c ''private-'' \<and> \<not> startsWith c ''presence-'' then (st, [], None)
               else
                 (case channels st c of
                    None \<Rightarrow> (st, [], None)
                  | Some subs \<Rightarrow>
                      (st, fan_out st subs (\<lambda>sid. sid = socketId) (client_frame event c data cl), None))
           | _ \<Rightarrow> (st, [], None)))"

text \<open>
  \<^verbatim>\<open>broadcast\<close> (lines 240-251), on a publish body of the documented shape: a list of
  channel names, and the excluded socket id when there is one.
\<close>

record publish =
  pub_name :: jsval
  pub_data :: jsval
  pub_channels :: "string list"
  pub_socket_id :: "string option"

definition broadcast_frame :: "publish \<Rightarrow> string \<Rightarrow> json" where
  "broadcast_frame p channel =
     JObj (js_object
       [(''event'', pub_name p), (''channel'', Some (JStr channel)), (''data'', pub_data p)])"

fun broadcast_loop :: "state \<Rightarrow> publish \<Rightarrow> string list \<Rightarrow> frames" where
  "broadcast_loop st p [] = []"
| "broadcast_loop st p (channel # rest) =
     (case channels st channel of
        None \<Rightarrow> broadcast_loop st p rest
      | Some subs \<Rightarrow>
          fan_out st subs (\<lambda>sid. Some sid = pub_socket_id p) (broadcast_frame p channel)
            @ broadcast_loop st p rest)"

definition broadcast :: "env \<Rightarrow> state \<Rightarrow> publish \<Rightarrow> outcome" where
  "broadcast e st p = (st, broadcast_loop st p (pub_channels p), None)"

section \<open>Inbound frames\<close>

definition pong :: json where
  "pong = JObj [(''event'', JStr ''pusher:pong''), (''data'', JStr ''{}'')]"

text \<open>Line 102: the data of an envelope as a string.\<close>

definition envelope_data :: "env \<Rightarrow> json \<Rightarrow> string" where
  "envelope_data e msg =
     (case get_prop msg ''data'' of
        Some (JStr s) \<Rightarrow> s
      | d \<Rightarrow> json_stringify e
              (case d of None \<Rightarrow> JObj [] | Some v \<Rightarrow> if truthy d then v else JObj []))"

text \<open>\<^verbatim>\<open>onMessage\<close> (lines 93-122). Only the parse of the envelope is inside a \<^verbatim>\<open>try\<close>.\<close>

definition onMessage :: "env \<Rightarrow> state \<Rightarrow> string \<Rightarrow> string \<Rightarrow> outcome" where
  "onMessage e st socketId ev_data =
     (case json_parse e ev_data of
        None \<Rightarrow> (st, [], None)
      | Some msg \<Rightarrow>
          if msg = JNull then (st, [], Some TypeError)
          else
            (let event = get_prop msg ''event'';
                 data = envelope_data e msg
             in if event = Some (JStr ''pusher:ping'') then
                  (st, (case clients st socketId of None \<Rightarrow> [] | Some cl \<Rightarrow> [(socketId, pong)]), None)
                else if event = Some (JStr ''pusher:subscribe'') then
                  (case json_parse e data of
                     None \<Rightarrow> (st, [], Some SyntaxError)
                   | Some payload \<Rightarrow> subscribe e st socketId payload)
                else if event = Some (JStr ''pusher:unsubscribe'') then
                  (case json_parse e data of
                     None \<Rightarrow> (st, [], Some SyntaxError)
                   | Some payload \<Rightarrow>
                       if payload = JNull then (st, [], Some TypeError)
                       else unsubscribe e st socketId (get_prop payload ''channel''))
                else if truthy event then
                  (case event of
                     Some (JStr ev) \<Rightarrow>
                       if startsWith ev ''client-''
                       then clientEvent e st socketId (get_prop msg ''channel'') ev data
                       else (st, [], None)
                   | _ \<Rightarrow> (st, [], Some TypeError))
                else (st, [], None)))"

section \<open>Properties of a state\<close>

definition subscribers :: "state \<Rightarrow> string \<Rightarrow> string set" where
  "subscribers st c = (case channels st c of None \<Rightarrow> {} | Some s \<Rightarrow> set s)"

definition session_channels :: "state \<Rightarrow> string \<Rightarrow> string set" where
  "session_channels st sid =
     (case clients st sid of None \<Rightarrow> {} | Some cl \<Rightarrow> set (cl_channels cl))"

text \<open>The subscriber list of a channel and the members of a presence channel, empty
  when the channel has no entry.\<close>

definition subs_of :: "state \<Rightarrow> string \<Rightarrow> string list" where
  "subs_of st c = (case channels st c of None \<Rightarrow> [] | Some s \<Rightarrow> s)"

definition members_of :: "state \<Rightarrow> string \<Rightarrow> (user_id \<times> jsval) list" where
  "members_of st c = (case presence st c of None \<Rightarrow> [] | Some m \<Rightarrow> m)"

text \<open>The channel index and the sessions' channel sets say the same.\<close>

definition consistent :: "state \<Rightarrow> bool" where
  "consistent st \<longleftrightarrow> (\<forall>sid c. sid \<in> subscribers st c \<longleftrightarrow> c \<in> session_channels st sid)"

text \<open>No channel of the index has an empty subscriber set.\<close>

definition no_orphans :: "state \<Rightarrow> bool" where
  "no_orphans st \<longleftrightarrow> (\<forall>c s. channels st c = Some s \<longrightarrow> s \<noteq> [])"

text \<open>A subscriber set is a \<^verbatim>\<open>Set\<close>: its list has no repetition.\<close>

definition sets_distinct :: "state \<Rightarrow> bool" where
  "sets_distinct st \<longleftrightarrow> (\<forall>c s. channels st c = Some s \<longrightarrow> distinct s)"

text \<open>
  The states the object can be in: it starts empty, and a step is a new connection, an
  inbound frame, a publish or a disconnect, each run from its first line to its last
  with no other operation in between. A new connection gets a socket id that no
  registered session has (the code draws it from the clock and a random number).
\<close>

inductive reachable :: "env \<Rightarrow> state \<Rightarrow> bool" for e :: env where
  start: "reachable e init_state"
| connect: "reachable e st \<Longrightarrow> clients st sid = None \<Longrightarrow> reachable e (fst (acceptWebSocket e st sid))"
| message: "reachable e st \<Longrightarrow> reachable e (fst (onMessage e st sid raw))"
| publish: "reachable e st \<Longrightarrow> reachable e (fst (broadcast e st p))"
| disconnect: "reachable e st \<Longrightarrow> reachable e (fst (onClose e st sid))"

text \<open>
  What a publish is to deliver on one channel, in the words of the specification: the
  frame to every current subscriber except the excluded one.
\<close>

definition spec_deliveries :: "state \<Rightarrow> publish \<Rightarrow> string \<Rightarrow> frames" where
  "spec_deliveries st p c =
     map (\<lambda>s. (s, broadcast_frame p c))
       (filter (\<lambda>s. Some s \<noteq> pub_socket_id p) (subs_of st c))"

section \<open>A concrete instance\<close>

text \<open>
  An environment and a state to run the model on. The parser and the serialiser of the
  instance are a table of the texts that occur in the runs below; the digest is two
  bytes, the lengths of the secret and of the message.
\<close>

definition cd_u3 :: string where
  \<open>cd_u3 = ''{"user_id":"u3","user_info":{"name":"Cy"}}''\<close>

definition cd_u4 :: string where
  \<open>cd_u4 = ''{"user_id":"u4"}''\<close>

definition cd_array :: string where
  \<open>cd_array = ''{"user_id":[7]}''\<close>

definition frame_bad_data :: string where
  \<open>frame_bad_data = ''{"event":"pusher:subscribe","data":"oops"}''\<close>

definition frame_bad_channel_data :: string where
  \<open>frame_bad_channel_data =
     ''{"event":"pusher:subscribe","data":{"channel":"presence-room","channel_data":"oops"}}''\<close>

definition data_bad_channel_data :: string where
  \<open>data_bad_channel_data = ''{"channel":"presence-room","channel_data":"oops"}''\<close>

definition frame_bad_channel_data_authorised :: string where
  \<open>frame_bad_channel_data_authorised =
     ''{"event":"pusher:subscribe","data":{"channel":"presence-room","auth":"app-key:0616","channel_data":"oops"}}''\<close>

definition data_bad_channel_data_authorised :: string where
  \<open>data_bad_channel_data_authorised =
     ''{"channel":"presence-room","auth":"app-key:0616","channel_data":"oops"}''\<close>

definition demo_table :: "(string \<times> json) list" where
  "demo_table =
     [(cd_u3, JObj [(''user_id'', JStr ''u3''), (''user_info'', JObj [(''name'', JStr ''Cy'')])]),
      (cd_u4, JObj [(''user_id'', JStr ''u4'')]),
      (cd_array, JObj [(''user_id'', JArr [JNum 7])]),
      (frame_bad_data, JObj [(''event'', JStr ''pusher:subscribe''), (''data'', JStr ''oops'')]),
      (frame_bad_channel_data,
         JObj [(''event'', JStr ''pusher:subscribe''),
               (''data'', JObj [(''channel'', JStr ''presence-room''),
                                (''channel_data'', JStr ''oops'')])]),
      (data_bad_channel_data,
         JObj [(''channel'', JStr ''presence-room''), (''channel_data'', JStr ''oops'')]),
      (frame_bad_channel_data_authorised,
         JObj [(''event'', JStr ''pusher:subscribe''),
               (''data'', JObj [(''channel'', JStr ''presence-room''),
                                (''auth'', JStr ''app-key:0616''),
                                (''channel_data'', JStr ''oops'')])]),
      (data_bad_channel_data_authorised,
         JObj [(''channel'', JStr ''presence-room''), (''auth'', JStr ''app-key:0616''),
               (''channel_data'', JStr ''oops'')])]"

definition demo_parse :: "string \<Rightarrow> json option" where
  "demo_parse s = map_of demo_table s"

definition demo_stringify :: "json \<Rightarrow> string" where
  "demo_stringify v =
     (case filter (\<lambda>(s, w). w = v) demo_table of [] \<Rightarrow> ''{}'' | (s, w) # _ \<Rightarrow> s)"

definition demo_digest :: "string \<Rightarrow> string \<Rightarrow> 8 word list" where
  "demo_digest secret msg = [of_nat (length secret), of_nat (length msg)]"

definition demo_env :: env where
  "demo_env =
     \<lparr>PUSHER_APP_KEY = ''app-key'', PUSHER_APP_SECRET = ''secret'',
      json_parse = demo_parse, json_stringify = demo_stringify,
      to_string = (\<lambda>v. ''[object Object]''), hmac_sha256 = demo_digest\<rparr>"

definition ann :: "user_id \<times> jsval" where
  "ann = ((None, Some (JStr ''u1'')), Some (JObj [(''name'', JStr ''Ann'')]))"

text \<open>Session 1.1 is in the room as Ann and in the chat, 2.2 is in the chat and on the
  public channel, and 3.3 has connected and subscribed to nothing.\<close>

definition demo_state :: state where
  "demo_state =
     \<lparr>clients =
        [''1.1'' \<mapsto> \<lparr>cl_channels = [''presence-room'', ''private-chat''], cl_user = Some ann\<rparr>,
         ''2.2'' \<mapsto> \<lparr>cl_channels = [''private-chat'', ''test-channel''], cl_user = None\<rparr>,
         ''3.3'' \<mapsto> \<lparr>cl_channels = [], cl_user = None\<rparr>],
      channels =
        [''presence-room'' \<mapsto> [''1.1''],
         ''private-chat'' \<mapsto> [''1.1'', ''2.2''],
         ''test-channel'' \<mapsto> [''2.2'']],
      presence = [''presence-room'' \<mapsto> [ann]],
      next_ref = 0\<rparr>"

text \<open>Session 3.3 asks for the room as user u3, and for the lobby as user u4.\<close>

definition join_room :: json where
  "join_room =
     JObj [(''channel'', JStr ''presence-room''), (''auth'', JStr ''app-key:063c''),
           (''channel_data'', JStr cd_u3)]"

definition join_lobby :: json where
  "join_lobby =
     JObj [(''channel'', JStr ''presence-lobby''), (''auth'', JStr ''app-key:0623''),
           (''channel_data'', JStr cd_u4)]"

text \<open>Session 3.3 asks for the room with a user id that is an array.\<close>

definition join_room_array :: json where
  "join_room_array =
     JObj [(''channel'', JStr ''presence-room''), (''auth'', JStr ''app-key:0621''),
           (''channel_data'', JStr cd_array)]"

text \<open>Session 3.3 asks for the chat with the key and the expected signature.\<close>

definition join_chat :: json where
  "join_chat =
     JObj [(''channel'', JStr ''private-chat''), (''auth'', JStr ''app-key:0610'')]"




text \<open>A publish to the public channel, and one to two channels that excludes 1.1.\<close>

definition demo_publish :: publish where
  "demo_publish =
     \<lparr>pub_name = Some (JStr ''test-event''), pub_data = Some (JStr ''hi''),
      pub_channels = [''test-channel''], pub_socket_id = None\<rparr>"

definition demo_publish_excluding :: publish where
  "demo_publish_excluding =
     \<lparr>pub_name = Some (JStr ''test-event''), pub_data = Some (JStr ''hi''),
      pub_channels = [''private-chat'', ''test-channel''], pub_socket_id = Some ''1.1''\<rparr>"

section \<open>The subscription invariant\<close>

lemma unsubscribe_unknown: "clients st sid = None \<Longrightarrow> unsubscribe e st sid ch = (st, [], None)"
  by (simp add: unsubscribe_def)

lemma unsubscribe_clients:
  "clients st sid = Some cl \<Longrightarrow>
   clients (fst (unsubscribe e st sid (Some (JStr c)))) =
     (clients st)(sid \<mapsto> cl\<lparr>cl_channels := removeAll c (cl_channels cl)\<rparr>)"
  by (auto simp: unsubscribe_def Let_def set_delete_def split: option.splits)

lemma unsubscribe_channels:
  "clients st sid = Some cl \<Longrightarrow>
   channels (fst (unsubscribe e st sid (Some (JStr c)))) =
     (case channels st c of
        None \<Rightarrow> channels st
      | Some s \<Rightarrow> if removeAll sid s = [] then (channels st)(c := None)
                  else (channels st)(c \<mapsto> removeAll sid s))"
  by (auto simp: unsubscribe_def Let_def set_delete_def split: option.splits)

lemma unsubscribe_no_exn:
  "snd (snd (unsubscribe e st sid (Some (JStr c)))) = None"
  by (auto simp: unsubscribe_def Let_def set_delete_def split: option.splits)

lemma unsubscribe_nonstring:
  "\<forall>c. ch \<noteq> Some (JStr c) \<Longrightarrow> fst (unsubscribe e st sid ch) = st"
  by (auto simp: unsubscribe_def split: option.splits json.splits)

lemma removeAll_emptyD: "removeAll x xs = [] \<Longrightarrow> y \<in> set xs \<Longrightarrow> y = x"
  using set_removeAll[of x xs] by auto

lemma subscribers_unsubscribe:
  assumes "clients st sid = Some cl"
  shows "subscribers (fst (unsubscribe e st sid (Some (JStr c)))) c' =
           (if c' = c then subscribers st c - {sid} else subscribers st c')"
  unfolding subscribers_def unsubscribe_channels[OF assms]
  by (auto split: option.splits if_splits dest: removeAll_emptyD)

lemma session_channels_unsubscribe:
  assumes "clients st sid = Some cl"
  shows "session_channels (fst (unsubscribe e st sid (Some (JStr c)))) sid' =
           (if sid' = sid then session_channels st sid - {c} else session_channels st sid')"
  unfolding session_channels_def unsubscribe_clients[OF assms]
  using assms by (auto split: option.splits if_splits)

lemma consistent_unsubscribe_str:
  assumes "consistent st"
  shows "consistent (fst (unsubscribe e st sid (Some (JStr c))))"
proof (cases "clients st sid")
  case None
  then show ?thesis using assms by (simp add: unsubscribe_unknown)
next
  case (Some cl)
  show ?thesis
    using assms unfolding consistent_def
      subscribers_unsubscribe[OF Some] session_channels_unsubscribe[OF Some]
    by auto
qed

lemma consistent_unsubscribe:
  assumes "consistent st"
  shows "consistent (fst (unsubscribe e st sid ch))"
proof (cases "\<exists>c. ch = Some (JStr c)")
  case True
  then show ?thesis using consistent_unsubscribe_str[OF assms] by auto
next
  case False
  then show ?thesis using assms by (simp add: unsubscribe_nonstring)
qed

lemma add_subscription_channels:
  "channels (fst (add_subscription st sid cl c)) =
     (channels st)(c \<mapsto> set_add sid (case channels st c of None \<Rightarrow> [] | Some s \<Rightarrow> s))"
  by (simp add: add_subscription_def Let_def)

lemma add_subscription_clients:
  "clients (fst (add_subscription st sid cl c)) =
     (clients st)(sid \<mapsto> cl\<lparr>cl_channels := set_add c (cl_channels cl)\<rparr>)"
  by (simp add: add_subscription_def Let_def)

lemma set_set_add: "set (set_add x xs) = insert x (set xs)"
  by (auto simp: set_add_def)

lemma subscribers_add_subscription:
  "subscribers (fst (add_subscription st sid cl c)) c' =
     (if c' = c then insert sid (subscribers st c) else subscribers st c')"
  unfolding subscribers_def add_subscription_channels
  by (auto simp: set_set_add split: option.splits)

lemma session_channels_add_subscription:
  assumes "session_channels st sid = set (cl_channels cl)"
  shows "session_channels (fst (add_subscription st sid cl c)) sid' =
     (if sid' = sid then insert c (session_channels st sid) else session_channels st sid')"
  using assms unfolding session_channels_def add_subscription_clients
  by (auto simp: set_set_add split: option.splits)

lemma consistent_add_subscription:
  assumes "consistent st" "session_channels st sid = set (cl_channels cl)"
  shows "consistent (fst (add_subscription st sid cl c))"
  using assms(1) unfolding consistent_def
    subscribers_add_subscription session_channels_add_subscription[OF assms(2)]
  by auto

lemma join_state: "fst (join e st sid cl c) = fst (add_subscription st sid cl c)"
  by (simp add: join_def split: prod.splits)

lemma presence_join_subscribers:
  "presence_join e st sid cl c payload = Inr (st1, cl1) \<Longrightarrow>
     channels st1 = channels st \<and> cl_channels cl1 = cl_channels cl \<and>
     clients st1 = (clients st)(sid \<mapsto> cl1)"
  by (auto simp: presence_join_def Let_def split: option.splits if_splits)

lemma consistent_presence_join:
  assumes "consistent st" "clients st sid = Some cl"
    "presence_join e st sid cl c payload = Inr (st1, cl1)"
  shows "consistent st1 \<and> session_channels st1 sid = set (cl_channels cl1)"
proof -
  from presence_join_subscribers[OF assms(3)]
  have a: "channels st1 = channels st" "cl_channels cl1 = cl_channels cl"
    "clients st1 = (clients st)(sid \<mapsto> cl1)" by auto
  have "subscribers st1 = subscribers st" by (simp add: subscribers_def a fun_eq_iff)
  moreover have "session_channels st1 = session_channels st"
    using assms(2) by (auto simp: session_channels_def a fun_eq_iff)
  ultimately show ?thesis using assms(1,2) by (simp add: consistent_def session_channels_def a)
qed

lemma consistent_subscribe:
  assumes "consistent st"
  shows "consistent (fst (subscribe e st sid payload))"
proof -
  have j: "consistent (fst (join e st' sid cl' c))"
    if "consistent st'" "session_channels st' sid = set (cl_channels cl')" for st' cl' c
    using that by (simp add: join_state consistent_add_subscription)
  have k: "session_channels st sid = set (cl_channels cl)" if "clients st sid = Some cl" for cl
    using that by (simp add: session_channels_def)
  show ?thesis
    using assms j k consistent_presence_join
    by (auto simp: subscribe_def split: option.splits json.splits sum.splits)
qed


lemma unsubscribe_all_fst:
  "clients st sid = Some cl \<Longrightarrow>
   \<exists>st' out cl'. unsubscribe_all e st sid cs = (st', out, None) \<and>
      clients st' sid = Some cl' \<and> set (cl_channels cl') = set (cl_channels cl) - set cs \<and>
      (consistent st \<longrightarrow> consistent st')"
proof (induction cs arbitrary: st cl)
  case Nil
  then show ?case by simp
next
  case (Cons c cs)
  obtain st1 out1 x1 where u: "unsubscribe e st sid (Some (JStr c)) = (st1, out1, x1)"
    by (cases "unsubscribe e st sid (Some (JStr c))") auto
  have x1: "x1 = None" using unsubscribe_no_exn[of e st sid c] u by simp
  have c1: "clients st1 sid = Some (cl\<lparr>cl_channels := removeAll c (cl_channels cl)\<rparr>)"
    using unsubscribe_clients[OF Cons.prems, of e c] u by simp
  have k1: "consistent st \<longrightarrow> consistent st1"
    using consistent_unsubscribe_str[of st e sid c] u by simp
  from Cons.IH[OF c1] obtain st' out cl' where
    r: "unsubscribe_all e st1 sid cs = (st', out, None)" "clients st' sid = Some cl'"
       "set (cl_channels cl') = set (cl_channels (cl\<lparr>cl_channels := removeAll c (cl_channels cl)\<rparr>)) - set cs"
       "consistent st1 \<longrightarrow> consistent st'"
    by blast
  show ?case using u x1 r k1 by auto
qed

lemma consistent_onClose:
  assumes "consistent st"
  shows "consistent (fst (onClose e st sid))"
proof (cases "clients st sid")
  case None
  then show ?thesis using assms by (simp add: onClose_def)
next
  case (Some cl)
  from unsubscribe_all_fst[OF Some, of e "cl_channels cl"] assms obtain st' out cl' where
    r: "unsubscribe_all e st sid (cl_channels cl) = (st', out, None)" "clients st' sid = Some cl'"
       "set (cl_channels cl') = {}" "consistent st'"
    by auto
  have "consistent (st'\<lparr>clients := (clients st')(sid := None)\<rparr>)"
    using r(2,3,4) unfolding consistent_def subscribers_def session_channels_def
    by (auto split: option.splits)
  then show ?thesis using Some r(1) by (simp add: onClose_def)
qed

lemma clientEvent_state: "fst (clientEvent e st sid ch ev d) = st"
  by (auto simp: clientEvent_def split: option.splits json.splits)

lemma broadcast_state: "fst (broadcast e st p) = st"
  by (simp add: broadcast_def)

lemma consistent_onMessage:
  assumes "consistent st"
  shows "consistent (fst (onMessage e st sid raw))"
  using assms consistent_subscribe[OF assms] consistent_unsubscribe[OF assms]
  by (auto simp: onMessage_def Let_def clientEvent_state split: option.splits json.splits)

lemma consistent_init: "consistent init_state"
  by (simp add: consistent_def subscribers_def session_channels_def init_state_def)

lemma consistent_demo: "consistent demo_state"
  unfolding consistent_def subscribers_def session_channels_def demo_state_def
  by (auto split: if_splits)

text \<open>
  Run one at a time, each from its first line to its last, the operations keep the
  subscription invariant, whatever their arguments and also when they end with an
  exception.
\<close>

lemma consistent_whole_calls:
  "consistent init_state \<and>
   (consistent st \<longrightarrow>
      consistent (fst (subscribe e st sid payload)) \<and>
      consistent (fst (unsubscribe e st sid ch)) \<and>
      consistent (fst (clientEvent e st sid ch ev d)) \<and>
      consistent (fst (broadcast e st p)) \<and>
      consistent (fst (onClose e st sid)))"
  using consistent_init consistent_subscribe consistent_unsubscribe consistent_onClose
  by (simp add: clientEvent_state broadcast_state)

text \<open>
  A call of \<^verbatim>\<open>subscribe\<close> that waits at line 144 and goes on in the state in which it
  was made is the call run in one piece.
\<close>

lemma subscribe_resume_whole_call:
  assumes "subscribe_suspends e st sid payload = Some c" "clients st sid = Some cl"
  shows "subscribe_resume e st sid cl c payload = subscribe e st sid payload"
proof -
  from assms obtain a k fs where
    p: "payload \<noteq> JNull" "get_prop payload ''channel'' = Some (JStr c)" "auth_required c"
      "truthy (get_prop payload ''auth'')" "get_prop payload ''auth'' = Some (JStr a)"
      "str_split CHR '':'' a = k # fs" "k = PUSHER_APP_KEY e"
    by (auto simp: subscribe_suspends_def split: if_splits option.splits json.splits list.splits)
  have j: "(case join e st1 sid cl1 c of
             (st2, out, x) \<Rightarrow> ((if clients st sid = Some cl then st2
                                  else st2\<lparr>clients := clients st\<rparr>), out, x)) =
           join e st1 sid cl1 c" for st1 cl1
    using assms(2) by (cases "join e st1 sid cl1 c") simp
  show ?thesis
  proof (cases "is_presence c")
    case True
    then show ?thesis
      using p assms(2) j
      by (cases fs; cases "presence_join e st sid cl c payload")
        (auto simp: subscribe_resume_def subscribe_def auth_check_def Let_def)
  next
    case False
    then show ?thesis
      using p assms(2) j
      by (cases fs) (auto simp: subscribe_resume_def subscribe_def auth_check_def Let_def)
  qed
qed

text \<open>
  C1. The code does not keep the invariant. Session 3.3 asks for the private chat
  with a valid auth: the call finds the session at line 126 and waits for the digest at
  line 144. The session disconnects, and \<^verbatim>\<open>onClose\<close> removes it from the registry. The
  call goes on: it does not look the session up again, and lines 159-161 put socket id
  3.3 among the subscribers of the chat and the chat into the channel set of an object
  that the registry no longer holds. The invariant holds before the request and after
  the disconnect; after the call has gone on, 3.3 is a subscriber of the chat and no
  registered session has the chat in its channel set under that id.
\<close>

theorem subscribe_resumed_after_close:
  "consistent demo_state \<and>
   clients demo_state ''3.3'' = Some \<lparr>cl_channels = [], cl_user = None\<rparr> \<and>
   subscribe_suspends demo_env demo_state ''3.3'' join_chat = Some ''private-chat'' \<and>
   snd (onClose demo_env demo_state ''3.3'') = ([], None) \<and>
   (let closed = fst (onClose demo_env demo_state ''3.3'');
        resumed = fst (subscribe_resume demo_env closed ''3.3''
                         \<lparr>cl_channels = [], cl_user = None\<rparr> ''private-chat'' join_chat)
    in consistent closed \<and>
       clients closed ''3.3'' = None \<and>
       clients resumed ''3.3'' = None \<and>
       channels resumed ''private-chat'' = Some [''1.1'', ''2.2'', ''3.3''] \<and>
       ''3.3'' \<in> subscribers resumed ''private-chat'' \<and>
       ''private-chat'' \<notin> session_channels resumed ''3.3'' \<and>
       \<not> consistent resumed)"
proof -
  let ?cl = "\<lparr>cl_channels = [], cl_user = None\<rparr>"
  let ?closed = "fst (onClose demo_env demo_state ''3.3'')"
  let ?resumed = "fst (subscribe_resume demo_env ?closed ''3.3'' ?cl ''private-chat'' join_chat)"
  have reg: "clients demo_state ''3.3'' = Some ?cl" by (simp add: demo_state_def)
  have sus: "subscribe_suspends demo_env demo_state ''3.3'' join_chat = Some ''private-chat''"
    by (simp add: subscribe_suspends_def demo_state_def join_chat_def get_prop_def
        auth_required_def startsWith_def truthy_def demo_env_def)
  have cl: "onClose demo_env demo_state ''3.3'' =
      (demo_state\<lparr>clients := (clients demo_state)(''3.3'' := None)\<rparr>, [], None)"
    using reg by (simp add: onClose_def)
  have co: "consistent ?closed" by (rule consistent_onClose[OF consistent_demo])
  have c1: "clients ?closed ''3.3'' = None" unfolding cl by simp
  have ch: "channels ?closed ''private-chat'' = Some [''1.1'', ''2.2'']"
    unfolding cl by (simp add: demo_state_def)
  have res: "subscribe_resume demo_env ?closed ''3.3'' ?cl ''private-chat'' join_chat =
      (?closed\<lparr>channels := (channels ?closed)(''private-chat'' \<mapsto> [''1.1'', ''2.2'', ''3.3''])\<rparr>,
       [(''3.3'', succeeded_internal ''private-chat''), (''3.3'', succeeded ''private-chat'')],
       None)"
    using c1 ch
    by (simp add: subscribe_resume_def join_chat_def get_prop_def is_presence_def startsWith_def
        demo_env_def hmac_def demo_digest_def hex_byte_def hex_digit_def auth_base_def truthy_def
        join_def add_subscription_def subscribe_frames_def Let_def set_add_def)
  have r1: "clients ?resumed ''3.3'' = None" unfolding res using c1 by simp
  have r2: "channels ?resumed ''private-chat'' = Some [''1.1'', ''2.2'', ''3.3'']"
    unfolding res by simp
  have r3: "''3.3'' \<in> subscribers ?resumed ''private-chat''"
    by (simp add: subscribers_def r2)
  have r4: "''private-chat'' \<notin> session_channels ?resumed ''3.3''"
    by (simp add: session_channels_def r1)
  have r5: "\<not> consistent ?resumed"
    using r3 r4 unfolding consistent_def by blast
  show ?thesis
    unfolding Let_def using consistent_demo reg sus cl co c1 r1 r2 r3 r4 r5 by simp
qed

section \<open>Presence subscriptions\<close>

lemma is_presence_auth_required: "is_presence c \<Longrightarrow> auth_required c"
  by (simp add: is_presence_def auth_required_def)

lemma snd_parsed_user_id [simp]: "snd (parsed_user_id st cd) = get_prop cd ''user_id''"
  by (simp add: parsed_user_id_def)

lemma length_member_ids [simp]: "length (member_ids ms) = length ms"
  by (simp add: member_ids_def)

lemma subscribe_presence_success:
  assumes reg: "clients st sid = Some cl"
    and ch: "get_prop payload ''channel'' = Some (JStr c)"
    and pr: "is_presence c"
    and au: "auth_check e sid c payload = Inr None"
    and cd: "json_parse e (js_to_string e (get_prop payload ''channel_data'')) = Some cd"
    and nn: "cd \<noteq> JNull"
  shows "subscribe e st sid payload =
     (st\<lparr>clients := (clients st)(sid \<mapsto>
             \<lparr>cl_channels = set_add c (cl_channels cl),
              cl_user = Some (parsed_user_id st cd, get_prop cd ''user_info'')\<rparr>),
          presence := (presence st)(c \<mapsto>
             AList.update (parsed_user_id st cd) (get_prop cd ''user_info'') (members_of st c)),
          next_ref := Suc (next_ref st),
          channels := (channels st)(c \<mapsto> set_add sid (subs_of st c))\<rparr>,
      [(sid, presence_succeeded_internal e c
               (AList.update (parsed_user_id st cd) (get_prop cd ''user_info'') (members_of st c))),
       (sid, presence_succeeded c
               (length (AList.update (parsed_user_id st cd) (get_prop cd ''user_info'') (members_of st c))))]
      @ map (\<lambda>s. (s, member_added e c (get_prop cd ''user_id'') (get_prop cd ''user_info'')))
          (filter (\<lambda>s. s \<noteq> sid \<and> clients st s \<noteq> None) (set_add sid (subs_of st c))),
      None)"
proof -
  have p: "payload \<noteq> JNull" using ch by (auto simp: get_prop_def)
  show ?thesis
    using reg ch pr au cd nn p is_presence_auth_required[OF pr]
    by (auto simp: subscribe_def presence_join_def join_def add_subscription_def
        subscribe_frames_def Let_def fan_out_def members_of_def subs_of_def
        intro!: state.equality client.equality cong: conj_cong
        split: option.splits)
qed

lemma consistent_registered:
  "consistent st \<Longrightarrow> s \<in> set (subs_of st c) \<Longrightarrow> clients st s \<noteq> None"
  by (auto simp: consistent_def subscribers_def session_channels_def subs_of_def
      split: option.splits)

lemma filter_removeAll_other:
  "filter (\<lambda>s. s \<noteq> x \<longrightarrow> P s) (removeAll x xs) = filter P (removeAll x xs)"
  by (induction xs) auto

lemma unsubscribe_presence:
  assumes reg: "clients st sid = Some cl"
    and us: "cl_user cl = Some (uid, info)"
    and pr: "is_presence c"
  shows "unsubscribe e st sid (Some (JStr c)) =
     (st\<lparr>clients := (clients st)(sid \<mapsto> cl\<lparr>cl_channels := removeAll c (cl_channels cl)\<rparr>),
          channels := (if removeAll sid (subs_of st c) = [] then (channels st)(c := None)
                       else (channels st)(c \<mapsto> removeAll sid (subs_of st c))),
          presence := (case presence st c of
                         None \<Rightarrow> presence st
                       | Some m \<Rightarrow> (presence st)(c \<mapsto> AList.delete uid m))\<rparr>,
      map (\<lambda>s. (s, member_removed e c (snd uid)))
        (filter (\<lambda>s. clients st s \<noteq> None) (removeAll sid (subs_of st c))),
      None)"
  using reg us pr
  by (auto simp: unsubscribe_def Let_def set_delete_def fan_out_def subs_of_def
      filter_removeAll_other intro!: state.equality split: option.splits)


text \<open>The concrete request of session 3.3 for the room is an authorised one.\<close>

lemmas demo_defs = demo_env_def demo_state_def demo_parse_def demo_table_def demo_stringify_def
  demo_digest_def cd_u3_def cd_u4_def cd_array_def frame_bad_data_def frame_bad_channel_data_def
  data_bad_channel_data_def frame_bad_channel_data_authorised_def
  data_bad_channel_data_authorised_def join_room_def join_lobby_def join_room_array_def
  ann_def

lemma demo_registered: "clients demo_state ''3.3'' = Some \<lparr>cl_channels = [], cl_user = None\<rparr>"
  by (simp add: demo_state_def)

lemma demo_room_channel: "get_prop join_room ''channel'' = Some (JStr ''presence-room'')"
  by (simp add: join_room_def get_prop_def)

lemma demo_room_presence: "is_presence ''presence-room''"
  by (simp add: is_presence_def startsWith_def)

lemma demo_room_auth: "auth_check demo_env ''3.3'' ''presence-room'' join_room = Inr None"
  by (simp add: auth_check_def join_room_def get_prop_def truthy_def demo_env_def hmac_def
      demo_digest_def hex_byte_def hex_digit_def auth_base_def js_to_string_def cd_u3_def)

lemma demo_room_data:
  "json_parse demo_env (js_to_string demo_env (get_prop join_room ''channel_data'')) =
     Some (JObj [(''user_id'', JStr ''u3''), (''user_info'', JObj [(''name'', JStr ''Cy'')])])"
  by (simp add: demo_defs get_prop_def js_to_string_def)

lemma update_key_mem: "k \<in> set (map fst (AList.update k v al))"
  by (induction al) auto

text \<open>The property names of the hash, and the value under a name that one member has.\<close>

lemma set_property_order [simp]: "set (property_order kvs) = set kvs"
  by (auto simp: property_order_def)







text \<open>
  Two user ids that are arrays of the same elements are two keys: a session that joins
  the room twice as \<^verbatim>\<open>[7]\<close> is two members. And the hash lists the ids that are array
  indices first, in ascending order.
\<close>

lemma demo_array_data:
  "json_parse demo_env (js_to_string demo_env (get_prop join_room_array ''channel_data'')) =
     Some (JObj [(''user_id'', JArr [JNum 7])])"
  by (simp add: demo_defs get_prop_def js_to_string_def)

lemma demo_array_auth:
  "auth_check demo_env ''3.3'' ''presence-room'' join_room_array = Inr None"
  by (simp add: auth_check_def join_room_array_def get_prop_def truthy_def demo_env_def hmac_def
      demo_digest_def hex_byte_def hex_digit_def auth_base_def js_to_string_def cd_array_def)

lemma array_ids_are_two_members:
  "member_ids (members_of
     (fst (subscribe demo_env (fst (subscribe demo_env demo_state ''3.3'' join_room_array))
             ''3.3'' join_room_array)) ''presence-room'') =
     [Some (JStr ''u1''), Some (JArr [JNum 7]), Some (JArr [JNum 7])]"
proof -
  let ?cd = "JObj [(''user_id'', JArr [JNum 7])]"
  have c: "get_prop join_room_array ''channel'' = Some (JStr ''presence-room'')"
    by (simp add: join_room_array_def get_prop_def)
  note s1 = subscribe_presence_success
    [OF demo_registered c demo_room_presence demo_array_auth demo_array_data, simplified]
  let ?st1 = "fst (subscribe demo_env demo_state ''3.3'' join_room_array)"
  have r1: "clients ?st1 ''3.3'' =
      Some \<lparr>cl_channels = set_add ''presence-room'' [],
            cl_user = Some (parsed_user_id demo_state ?cd, get_prop ?cd ''user_info'')\<rparr>"
    unfolding s1 by simp
  note s2 = subscribe_presence_success
    [OF r1 c demo_room_presence demo_array_auth demo_array_data, simplified]
  have n1: "next_ref ?st1 = 1" unfolding s1 by (simp add: demo_state_def)
  have m1: "members_of ?st1 ''presence-room'' =
      [ann, ((Some 0, Some (JArr [JNum 7])), None)]"
    unfolding s1
    by (simp add: members_of_def demo_state_def parsed_user_id_def is_reference_def get_prop_def
        ann_def)
  show ?thesis
    unfolding s2
    by (simp add: members_of_def[of "_\<lparr>clients := _, presence := _, next_ref := _, channels := _\<rparr>"]
        m1 n1 parsed_user_id_def is_reference_def get_prop_def member_ids_def ann_def)
qed

lemma hash_lists_indices_first:
  "js_object (from_entries demo_env
     [((None, Some (JStr ''u1'')), Some (JStr ''a'')),
      ((None, Some (JStr ''10'')), Some (JStr ''b'')),
      ((None, Some (JStr ''9'')), Some (JStr ''c''))]) =
   [(''9'', JStr ''c''), (''10'', JStr ''b''), (''u1'', JStr ''a'')]"
  by (simp add: from_entries_def js_to_string_def property_order_def array_index_def
      digit_value_def)




lemma member_removed_delivery:
  assumes reg: "clients st sid = Some cl"
    and us: "cl_user cl = Some (uid, info)"
    and pr: "is_presence c"
    and co: "consistent st"
  shows "let r = unsubscribe e st sid (Some (JStr c))
         in subs_of (fst r) c = removeAll sid (subs_of st c) \<and>
            fst (snd r) = map (\<lambda>s. (s, member_removed e c (snd uid))) (subs_of (fst r) c) \<and>
            sid \<notin> fst ` set (fst (snd r))"
proof -
  have f: "filter (\<lambda>s. clients st s \<noteq> None) (removeAll sid (subs_of st c)) =
           removeAll sid (subs_of st c)"
    using consistent_registered[OF co, of _ c] by (auto simp: filter_id_conv)
  show ?thesis
    unfolding Let_def unsubscribe_presence[OF reg us pr] f
    by (auto simp: subs_of_def)
qed






section \<open>One identity per session\<close>

lemma demo_lobby_channel: "get_prop join_lobby ''channel'' = Some (JStr ''presence-lobby'')"
  by (simp add: join_lobby_def get_prop_def)

lemma demo_lobby_presence: "is_presence ''presence-lobby''"
  by (simp add: is_presence_def startsWith_def)

lemma demo_lobby_auth: "auth_check demo_env ''3.3'' ''presence-lobby'' join_lobby = Inr None"
  by (simp add: auth_check_def join_lobby_def get_prop_def truthy_def demo_env_def hmac_def
      demo_digest_def hex_byte_def hex_digit_def auth_base_def js_to_string_def cd_u4_def)

lemma demo_lobby_data:
  "json_parse demo_env (js_to_string demo_env (get_prop join_lobby ''channel_data'')) =
     Some (JObj [(''user_id'', JStr ''u4'')])"
  by (simp add: demo_defs get_prop_def js_to_string_def)

lemma parsed_user_id_differs:
  assumes "get_prop cd1 ''user_id'' \<noteq> get_prop cd2 ''user_id'' \<or>
           is_reference (get_prop cd1 ''user_id'')"
    and "next_ref st1 = Suc (next_ref st)"
  shows "parsed_user_id st cd1 \<noteq> parsed_user_id st1 cd2"
  using assms by (auto simp: parsed_user_id_def)

lemma identity_overwritten_steps:
  assumes reg: "clients st sid = Some cl"
    and ch1: "get_prop pay1 ''channel'' = Some (JStr c1)"
    and pr1: "is_presence c1"
    and au1: "auth_check e sid c1 pay1 = Inr None"
    and cd1: "json_parse e (js_to_string e (get_prop pay1 ''channel_data'')) = Some cd1"
    and nn1: "cd1 \<noteq> JNull"
    and ch2: "get_prop pay2 ''channel'' = Some (JStr c2)"
    and pr2: "is_presence c2"
    and au2: "auth_check e sid c2 pay2 = Inr None"
    and cd2: "json_parse e (js_to_string e (get_prop pay2 ''channel_data'')) = Some cd2"
    and nn2: "cd2 \<noteq> JNull"
    and co: "consistent st"
  shows "let i1 = get_prop cd1 ''user_info''; i2 = get_prop cd2 ''user_info'';
             k1 = parsed_user_id st cd1;
             st1 = fst (subscribe e st sid pay1);
             k2 = parsed_user_id st1 cd2;
             st2 = fst (subscribe e st1 sid pay2);
             r = unsubscribe e st2 sid (Some (JStr c1))
         in map_option cl_user (clients st1 sid) = Some (Some (k1, i1)) \<and>
            map_option cl_user (clients st2 sid) = Some (Some (k2, i2)) \<and>
            members_of (fst r) c1 = AList.delete k2 (members_of st2 c1) \<and>
            (get_prop cd1 ''user_id'' \<noteq> get_prop cd2 ''user_id'' \<or>
             is_reference (get_prop cd1 ''user_id'') \<longrightarrow>
               map_of (members_of (fst r) c1) k1 = Some i1) \<and>
            fst (snd r) = map (\<lambda>s. (s, member_removed e c1 (get_prop cd2 ''user_id'')))
                            (subs_of (fst r) c1)"
proof -
  let ?i1 = "get_prop cd1 ''user_info''" and ?i2 = "get_prop cd2 ''user_info''"
  let ?k1 = "parsed_user_id st cd1"
  let ?st1 = "fst (subscribe e st sid pay1)"
  let ?k2 = "parsed_user_id ?st1 cd2"
  let ?st2 = "fst (subscribe e ?st1 sid pay2)"
  let ?cl1 = "\<lparr>cl_channels = set_add c1 (cl_channels cl), cl_user = Some (?k1, ?i1)\<rparr>"
  let ?cl2 = "\<lparr>cl_channels = set_add c2 (cl_channels ?cl1), cl_user = Some (?k2, ?i2)\<rparr>"
  note s1 = subscribe_presence_success[OF reg ch1 pr1 au1 cd1 nn1]
  have reg1: "clients ?st1 sid = Some ?cl1" unfolding s1 by simp
  have nr: "next_ref ?st1 = Suc (next_ref st)" unfolding s1 by simp
  note s2 = subscribe_presence_success[OF reg1 ch2 pr2 au2 cd2 nn2]
  have reg2: "clients ?st2 sid = Some ?cl2" unfolding s2 by simp
  have us2: "cl_user ?cl2 = Some (?k2, ?i2)" by simp
  have co2: "consistent ?st2" by (intro consistent_subscribe co)
  have m1: "members_of ?st1 c1 = AList.update ?k1 ?i1 (members_of st c1)"
    unfolding s1 by (simp add: members_of_def)
  have m2: "map_of (members_of ?st2 c1) ?k1 = Some ?i1" if ne: "?k1 \<noteq> ?k2"
  proof (cases "c2 = c1")
    case True
    have "members_of ?st2 c1 = AList.update ?k2 ?i2 (members_of ?st1 c1)"
      unfolding s2 using True by (simp add: members_of_def)
    then show ?thesis using ne by (simp add: m1 update_conv')
  next
    case False
    have "members_of ?st2 c1 = members_of ?st1 c1"
      unfolding s2 using False by (simp add: members_of_def)
    then show ?thesis by (simp add: m1 update_conv')
  qed
  note d = member_removed_delivery[OF reg2 us2 pr1 co2, of e, unfolded Let_def snd_parsed_user_id]
  have del: "members_of (fst (unsubscribe e ?st2 sid (Some (JStr c1)))) c1 =
      AList.delete ?k2 (members_of ?st2 c1)"
    unfolding unsubscribe_presence[OF reg2 us2 pr1]
    by (simp add: members_of_def split: option.splits)
  have keep: "get_prop cd1 ''user_id'' \<noteq> get_prop cd2 ''user_id'' \<or>
      is_reference (get_prop cd1 ''user_id'') \<longrightarrow>
      map_of (members_of (fst (unsubscribe e ?st2 sid (Some (JStr c1)))) c1) ?k1 = Some ?i1"
  proof
    assume a: "get_prop cd1 ''user_id'' \<noteq> get_prop cd2 ''user_id'' \<or>
      is_reference (get_prop cd1 ''user_id'')"
    have ne: "?k1 \<noteq> ?k2" by (rule parsed_user_id_differs[OF a nr])
    show "map_of (members_of (fst (unsubscribe e ?st2 sid (Some (JStr c1)))) c1) ?k1 = Some ?i1"
      unfolding del using ne m2[OF ne] by (simp add: delete_conv')
  qed
  have r1: "map_option cl_user (clients ?st1 sid) = Some (Some (?k1, ?i1))"
    using reg1 by simp
  have r2: "map_option cl_user (clients ?st2 sid) = Some (Some (?k2, ?i2))"
    using reg2 by simp
  show ?thesis
    unfolding Let_def
    by (intro conjI) (rule r1, rule r2, rule del, rule keep, rule d[THEN conjunct2, THEN conjunct1])
qed

lemma demo_twice_members:
  "members_of (fst (subscribe demo_env (fst (subscribe demo_env demo_state ''3.3'' join_room))
      ''3.3'' join_lobby)) ''presence-room'' =
   [((None, Some (JStr ''u1'')), Some (JObj [(''name'', JStr ''Ann'')])),
    ((None, Some (JStr ''u3'')), Some (JObj [(''name'', JStr ''Cy'')]))]"
proof -
  note s1 = subscribe_presence_success
    [OF demo_registered demo_room_channel demo_room_presence demo_room_auth demo_room_data, simplified]
  have reg1: "clients (fst (subscribe demo_env demo_state ''3.3'' join_room)) ''3.3'' =
     Some \<lparr>cl_channels = set_add ''presence-room'' [],
           cl_user = Some (parsed_user_id demo_state
              (JObj [(''user_id'', JStr ''u3''), (''user_info'', JObj [(''name'', JStr ''Cy'')])]),
              get_prop (JObj [(''user_id'', JStr ''u3''), (''user_info'', JObj [(''name'', JStr ''Cy'')])])
                ''user_info'')\<rparr>"
    unfolding s1 by simp
  note s2 = subscribe_presence_success
    [OF reg1 demo_lobby_channel demo_lobby_presence demo_lobby_auth demo_lobby_data, simplified]
  show ?thesis
    unfolding s2 unfolding s1
    by (simp add: members_of_def demo_state_def ann_def parsed_user_id_def is_reference_def
        get_prop_def)
qed

lemma demo_twice_left_subs:
  "subs_of (fst (unsubscribe demo_env
      (fst (subscribe demo_env (fst (subscribe demo_env demo_state ''3.3'' join_room))
         ''3.3'' join_lobby)) ''3.3'' (Some (JStr ''presence-room'')))) ''presence-room'' =
   [''1.1'']"
proof -
  note s1 = subscribe_presence_success
    [OF demo_registered demo_room_channel demo_room_presence demo_room_auth demo_room_data, simplified]
  have reg1: "clients (fst (subscribe demo_env demo_state ''3.3'' join_room)) ''3.3'' =
     Some \<lparr>cl_channels = set_add ''presence-room'' [],
           cl_user = Some (parsed_user_id demo_state
              (JObj [(''user_id'', JStr ''u3''), (''user_info'', JObj [(''name'', JStr ''Cy'')])]),
              get_prop (JObj [(''user_id'', JStr ''u3''), (''user_info'', JObj [(''name'', JStr ''Cy'')])])
                ''user_info'')\<rparr>"
    unfolding s1 by simp
  note s2 = subscribe_presence_success
    [OF reg1 demo_lobby_channel demo_lobby_presence demo_lobby_auth demo_lobby_data, simplified]
  let ?st2 = "fst (subscribe demo_env (fst (subscribe demo_env demo_state ''3.3'' join_room))
         ''3.3'' join_lobby)"
  have reg2: "clients ?st2 ''3.3'' =
     Some \<lparr>cl_channels = set_add ''presence-lobby'' (set_add ''presence-room'' []),
           cl_user = Some (parsed_user_id (fst (subscribe demo_env demo_state ''3.3'' join_room))
              (JObj [(''user_id'', JStr ''u4'')]),
              get_prop (JObj [(''user_id'', JStr ''u4'')]) ''user_info'')\<rparr>"
    unfolding s2 by simp
  have sub2: "subs_of ?st2 ''presence-room'' = [''1.1'', ''3.3'']"
    unfolding s2 unfolding s1 by (simp add: subs_of_def demo_state_def set_add_def)
  have co2: "consistent ?st2"
    by (intro consistent_subscribe consistent_demo)
  note d = member_removed_delivery[OF reg2 _ demo_room_presence co2, of _ _ demo_env,
      unfolded Let_def, THEN conjunct1]
  show ?thesis unfolding d[OF client.select_convs(2)] sub2 by simp
qed

text \<open>
  C9. A session has one identity, and each successful presence subscription overwrites
  it. When a session joins presence channel c1 as user u1 and then presence channel c2
  as user u2, its identity is u2. A later unsubscribe from c1 deletes the entry of u2
  from the members of c1, where the member map compares keys as a \<^verbatim>\<open>Map\<close> does, so
  that the entry of u1 stays there when u1 and u2 differ as values or when u1 is an
  array or an object. The events sent on c1 are \<^verbatim>\<open>pusher_internal:member_removed\<close>
  events whose data is the serialised user id u2, one for every subscriber that remains.
\<close>

theorem identity_overwritten:
  "clients st sid = Some cl \<and> consistent st \<and>
   get_prop pay1 ''channel'' = Some (JStr c1) \<and> is_presence c1 \<and>
   auth_check e sid c1 pay1 = Inr None \<and>
   json_parse e (js_to_string e (get_prop pay1 ''channel_data'')) = Some cd1 \<and> cd1 \<noteq> JNull \<and>
   get_prop pay2 ''channel'' = Some (JStr c2) \<and> is_presence c2 \<and>
   auth_check e sid c2 pay2 = Inr None \<and>
   json_parse e (js_to_string e (get_prop pay2 ''channel_data'')) = Some cd2 \<and> cd2 \<noteq> JNull \<longrightarrow>
     (let i1 = get_prop cd1 ''user_info''; i2 = get_prop cd2 ''user_info'';
          k1 = parsed_user_id st cd1;
          st1 = fst (subscribe e st sid pay1);
          k2 = parsed_user_id st1 cd2;
          st2 = fst (subscribe e st1 sid pay2);
          r = unsubscribe e st2 sid (Some (JStr c1))
      in map_option cl_user (clients st1 sid) = Some (Some (k1, i1)) \<and>
         map_option cl_user (clients st2 sid) = Some (Some (k2, i2)) \<and>
         snd k1 = get_prop cd1 ''user_id'' \<and> snd k2 = get_prop cd2 ''user_id'' \<and>
         members_of (fst r) c1 = AList.delete k2 (members_of st2 c1) \<and>
         (get_prop cd1 ''user_id'' \<noteq> get_prop cd2 ''user_id'' \<or>
          is_reference (get_prop cd1 ''user_id'') \<longrightarrow>
            map_of (members_of (fst r) c1) k1 = Some i1) \<and>
         fst (snd r) =
           map (\<lambda>s. (s, JObj [(''event'', JStr ''pusher_internal:member_removed''),
                              (''channel'', JStr c1),
                              (''data'', JStr (json_stringify e
                                 (JObj (js_object [(''user_id'', get_prop cd2 ''user_id'')]))))]))
             (subs_of (fst r) c1))"
  using identity_overwritten_steps[of st sid cl pay1 c1 e cd1 pay2 c2 cd2,
      unfolded member_removed_def Let_def]
  unfolding Let_def snd_parsed_user_id by blast

theorem identity_overwritten_witness:
  "(let st1 = fst (subscribe demo_env demo_state ''3.3'' join_room);
        st2 = fst (subscribe demo_env st1 ''3.3'' join_lobby);
        r = unsubscribe demo_env st2 ''3.3'' (Some (JStr ''presence-room''))
    in map_option cl_user (clients st1 ''3.3'') =
         Some (Some ((None, Some (JStr ''u3'')), Some (JObj [(''name'', JStr ''Cy'')]))) \<and>
       map_option cl_user (clients st2 ''3.3'') = Some (Some ((None, Some (JStr ''u4'')), None)) \<and>
       members_of (fst r) ''presence-room'' =
         [((None, Some (JStr ''u1'')), Some (JObj [(''name'', JStr ''Ann'')])),
          ((None, Some (JStr ''u3'')), Some (JObj [(''name'', JStr ''Cy'')]))] \<and>
       map_of (members_of (fst r) ''presence-room'') (None, Some (JStr ''u3'')) =
         Some (Some (JObj [(''name'', JStr ''Cy'')])) \<and>
       fst (snd r) =
         [(''1.1'', JObj [(''event'', JStr ''pusher_internal:member_removed''),
                          (''channel'', JStr ''presence-room''),
                          (''data'', JStr (json_stringify demo_env
                             (JObj [(''user_id'', JStr ''u4'')])))])])"
proof -
  let ?cd3 = "JObj [(''user_id'', JStr ''u3''), (''user_info'', JObj [(''name'', JStr ''Cy'')])]"
  let ?cd4 = "JObj [(''user_id'', JStr ''u4'')]"
  have g: "get_prop ?cd3 ''user_id'' = Some (JStr ''u3'')"
    "get_prop ?cd3 ''user_info'' = Some (JObj [(''name'', JStr ''Cy'')])"
    "get_prop ?cd4 ''user_id'' = Some (JStr ''u4'')"
    "get_prop ?cd4 ''user_info'' = None"
    by (simp_all add: get_prop_def)
  have k: "parsed_user_id s ?cd3 = (None, Some (JStr ''u3''))"
    "parsed_user_id s ?cd4 = (None, Some (JStr ''u4''))" for s
    by (simp_all add: parsed_user_id_def is_reference_def get_prop_def)
  have ne: "?cd3 \<noteq> JNull" "?cd4 \<noteq> JNull" by simp_all
  note t = identity_overwritten
    [of demo_state "''3.3''" "\<lparr>cl_channels = [], cl_user = None\<rparr>" join_room "''presence-room''"
      demo_env ?cd3 join_lobby "''presence-lobby''" ?cd4, THEN mp,
      OF conjI[OF demo_registered conjI[OF consistent_demo
        conjI[OF demo_room_channel conjI[OF demo_room_presence conjI[OF demo_room_auth
        conjI[OF demo_room_data conjI[OF ne(1)
        conjI[OF demo_lobby_channel conjI[OF demo_lobby_presence conjI[OF demo_lobby_auth
        conjI[OF demo_lobby_data ne(2)]]]]]]]]]]],
      unfolded g k Let_def]
  have n: "Some (JStr ''u3'') \<noteq> Some (JStr ''u4'') \<or> is_reference (Some (JStr ''u3''))" by simp
  note t1 = t[THEN conjunct1]
  note t2 = t[THEN conjunct2, THEN conjunct1]
  note t3 = t[THEN conjunct2, THEN conjunct2, THEN conjunct2, THEN conjunct2, THEN conjunct1,
      unfolded demo_twice_members]
  note t4 = t[THEN conjunct2, THEN conjunct2, THEN conjunct2, THEN conjunct2, THEN conjunct2,
      THEN conjunct1, THEN mp, OF n]
  note t5 = t[THEN conjunct2, THEN conjunct2, THEN conjunct2, THEN conjunct2, THEN conjunct2,
      THEN conjunct2, unfolded demo_twice_left_subs]
  have t3': "members_of (fst (unsubscribe demo_env
      (fst (subscribe demo_env (fst (subscribe demo_env demo_state ''3.3'' join_room))
         ''3.3'' join_lobby)) ''3.3'' (Some (JStr ''presence-room'')))) ''presence-room'' =
     [((None, Some (JStr ''u1'')), Some (JObj [(''name'', JStr ''Ann'')])),
      ((None, Some (JStr ''u3'')), Some (JObj [(''name'', JStr ''Cy'')]))]"
    using t3 by (simp add: AList.delete_eq)
  have t5': "fst (snd (unsubscribe demo_env
      (fst (subscribe demo_env (fst (subscribe demo_env demo_state ''3.3'' join_room))
         ''3.3'' join_lobby)) ''3.3'' (Some (JStr ''presence-room'')))) =
     [(''1.1'', JObj [(''event'', JStr ''pusher_internal:member_removed''),
                      (''channel'', JStr ''presence-room''),
                      (''data'', JStr (json_stringify demo_env
                         (JObj [(''user_id'', JStr ''u4'')])))])]"
    using t5 by simp
  show ?thesis unfolding Let_def
    by (intro conjI) (rule t1, rule t2, rule t3', rule t4, rule t5')
qed

section \<open>No orphan channels\<close>

lemma set_add_nonempty: "set_add x xs \<noteq> []"
  by (auto simp: set_add_def)

lemma distinct_set_add: "distinct xs \<Longrightarrow> distinct (set_add x xs)"
  by (auto simp: set_add_def)

lemma subscribe_state_cases:
  "fst (subscribe e st sid payload) = st \<or>
   (\<exists>st1 cl1 c. channels st1 = channels st \<and>
      fst (subscribe e st sid payload) = fst (add_subscription st1 sid cl1 c))"
proof -
  have j: "\<exists>st1 cl1 c. channels st1 = channels st \<and>
      fst (join e st' sid cl' c') = fst (add_subscription st1 sid cl1 c)"
    if "channels st' = channels st" for st' cl' c'
    using that join_state by blast
  have p: "\<exists>st1 cl1 c. channels st1 = channels st \<and>
      fst (join e st' sid cl' c') = fst (add_subscription st1 sid cl1 c)"
    if "presence_join e st sid cl c' payload = Inr (st', cl')" for st' cl' c' cl
    using presence_join_subscribers[OF that] j by blast
  show ?thesis
    unfolding subscribe_def
    using j[of st] p
    by (simp split: option.splits json.splits sum.splits)
qed

lemma subscribe_channels:
  "channels (fst (subscribe e st sid payload)) = channels st \<or>
   (\<exists>c. channels (fst (subscribe e st sid payload)) = (channels st)(c \<mapsto> set_add sid (subs_of st c)))"
  using subscribe_state_cases[of e st sid payload]
  by (auto simp: add_subscription_channels subs_of_def)

lemma no_orphans_subscribe:
  assumes "no_orphans st"
  shows "no_orphans (fst (subscribe e st sid payload))"
proof -
  consider "channels (fst (subscribe e st sid payload)) = channels st"
    | c where "channels (fst (subscribe e st sid payload)) =
        (channels st)(c \<mapsto> set_add sid (subs_of st c))"
    using subscribe_channels[of e st sid payload] by blast
  then show ?thesis
  proof cases
    case 1
    then show ?thesis using assms by (simp add: no_orphans_def)
  next
    case 2
    show ?thesis using assms unfolding no_orphans_def 2
      by (auto simp: set_add_nonempty)
  qed
qed

lemma sets_distinct_subscribe:
  assumes "sets_distinct st"
  shows "sets_distinct (fst (subscribe e st sid payload))"
proof -
  have d: "distinct (subs_of st c)" for c
    using assms by (auto simp: sets_distinct_def subs_of_def split: option.splits)
  consider "channels (fst (subscribe e st sid payload)) = channels st"
    | c where "channels (fst (subscribe e st sid payload)) =
        (channels st)(c \<mapsto> set_add sid (subs_of st c))"
    using subscribe_channels[of e st sid payload] by blast
  then show ?thesis
  proof cases
    case 1
    then show ?thesis using assms by (simp add: sets_distinct_def)
  next
    case 2
    show ?thesis using assms unfolding sets_distinct_def 2
      by (auto simp: distinct_set_add d)
  qed
qed

lemma unsubscribe_channels_cases:
  "channels (fst (unsubscribe e st sid ch)) = channels st \<or>
   (\<exists>c s. channels st c = Some s \<and>
      channels (fst (unsubscribe e st sid ch)) =
        (if removeAll sid s = [] then (channels st)(c := None)
         else (channels st)(c \<mapsto> removeAll sid s)))"
  by (auto simp: unsubscribe_def Let_def set_delete_def
      split: option.splits json.splits)

lemma no_orphans_unsubscribe:
  assumes "no_orphans st"
  shows "no_orphans (fst (unsubscribe e st sid ch))"
proof -
  consider "channels (fst (unsubscribe e st sid ch)) = channels st"
    | c s where "channels st c = Some s" "removeAll sid s = []"
        "channels (fst (unsubscribe e st sid ch)) = (channels st)(c := None)"
    | c s where "channels st c = Some s" "removeAll sid s \<noteq> []"
        "channels (fst (unsubscribe e st sid ch)) = (channels st)(c \<mapsto> removeAll sid s)"
    using unsubscribe_channels_cases[of e st sid ch] by (metis (full_types))
  then show ?thesis
  proof cases
    case 1
    then show ?thesis using assms by (simp add: no_orphans_def)
  next
    case 2
    show ?thesis using assms unfolding no_orphans_def 2(3) by auto
  next
    case 3
    show ?thesis using assms 3(2) unfolding no_orphans_def 3(3) by auto
  qed
qed

lemma sets_distinct_unsubscribe:
  assumes "sets_distinct st"
  shows "sets_distinct (fst (unsubscribe e st sid ch))"
proof -
  consider "channels (fst (unsubscribe e st sid ch)) = channels st"
    | c s where "channels st c = Some s" "removeAll sid s = []"
        "channels (fst (unsubscribe e st sid ch)) = (channels st)(c := None)"
    | c s where "channels st c = Some s" "removeAll sid s \<noteq> []"
        "channels (fst (unsubscribe e st sid ch)) = (channels st)(c \<mapsto> removeAll sid s)"
    using unsubscribe_channels_cases[of e st sid ch] by (metis (full_types))
  then show ?thesis
  proof cases
    case 1
    then show ?thesis using assms by (simp add: sets_distinct_def)
  next
    case 2
    show ?thesis using assms unfolding sets_distinct_def 2(3) by auto
  next
    case 3
    show ?thesis using assms 3(1) unfolding sets_distinct_def 3(3)
      by (auto simp: distinct_removeAll)
  qed
qed

lemma unsubscribe_all_invariant:
  assumes step: "\<And>st c. P st \<Longrightarrow> P (fst (unsubscribe e st sid (Some (JStr c))))"
  shows "P st \<Longrightarrow> P (fst (unsubscribe_all e st sid cs))"
proof (induction cs arbitrary: st)
  case Nil
  then show ?case by simp
next
  case (Cons c cs)
  obtain st1 out1 x1 where u: "unsubscribe e st sid (Some (JStr c)) = (st1, out1, x1)"
    by (cases "unsubscribe e st sid (Some (JStr c))") auto
  have p1: "P st1" using step[OF Cons.prems, of c] u by simp
  show ?case
  proof (cases x1)
    case None
    then show ?thesis using u Cons.IH[OF p1]
      by (cases "unsubscribe_all e st1 sid cs") auto
  next
    case (Some x)
    then show ?thesis using u p1 by simp
  qed
qed

lemma onClose_channels:
  "channels (fst (onClose e st sid)) =
     (case clients st sid of
        None \<Rightarrow> channels st
      | Some cl \<Rightarrow> channels (fst (unsubscribe_all e st sid (cl_channels cl))))"
  by (auto simp: onClose_def split: option.splits prod.splits)

lemma no_orphans_onClose:
  assumes "no_orphans st"
  shows "no_orphans (fst (onClose e st sid))"
proof (cases "clients st sid")
  case None
  then show ?thesis using assms by (simp add: onClose_def)
next
  case (Some cl)
  have "no_orphans (fst (unsubscribe_all e st sid (cl_channels cl)))"
    by (rule unsubscribe_all_invariant[where P = no_orphans, OF no_orphans_unsubscribe assms])
  then show ?thesis
    using onClose_channels[of e st sid] Some by (simp add: no_orphans_def)
qed

lemma sets_distinct_onClose:
  assumes "sets_distinct st"
  shows "sets_distinct (fst (onClose e st sid))"
proof (cases "clients st sid")
  case None
  then show ?thesis using assms by (simp add: onClose_def)
next
  case (Some cl)
  have "sets_distinct (fst (unsubscribe_all e st sid (cl_channels cl)))"
    by (rule unsubscribe_all_invariant[where P = sets_distinct, OF sets_distinct_unsubscribe assms])
  then show ?thesis
    using onClose_channels[of e st sid] Some by (simp add: sets_distinct_def)
qed

lemma no_orphans_init: "no_orphans init_state"
  by (simp add: no_orphans_def init_state_def)

lemma broadcast_absent_channel:
  "channels st c = None \<Longrightarrow> pub_channels p = [c] \<Longrightarrow> broadcast e st p = (st, [], None)"
  by (simp add: broadcast_def)

lemma unsubscribe_last:
  assumes "clients st sid = Some cl" "subscribers st c = {sid}"
  shows "channels (fst (unsubscribe e st sid (Some (JStr c)))) c = None"
proof -
  have "removeAll sid s = []" if "channels st c = Some s" for s
    using that assms(2) by (auto simp: subscribers_def removeAll_filter_not_eq filter_empty_conv)
  then show ?thesis
    unfolding unsubscribe_channels[OF assms(1)] by (auto split: option.splits)
qed

lemma no_orphans_demo: "no_orphans demo_state"
  unfolding no_orphans_def demo_state_def by (auto split: if_splits)

text \<open>
  C6. Every channel of the index has a subscriber: this holds in the initial state and
  every operation keeps it. When the only subscriber of a channel unsubscribes, the
  entry of the channel is deleted, and a broadcast that names the channel afterwards
  sends nothing, changes nothing and raises nothing.
\<close>

theorem no_orphan_channels:
  "no_orphans init_state \<and>
   (no_orphans st \<longrightarrow>
      no_orphans (fst (subscribe e st sid payload)) \<and>
      no_orphans (fst (unsubscribe e st sid ch)) \<and>
      no_orphans (fst (clientEvent e st sid ch ev d)) \<and>
      no_orphans (fst (broadcast e st p)) \<and>
      no_orphans (fst (onClose e st sid))) \<and>
   (clients st sid = Some cl \<and> subscribers st c = {sid} \<longrightarrow>
      (let st' = fst (unsubscribe e st sid (Some (JStr c)))
       in channels st' c = None \<and>
          (pub_channels p = [c] \<longrightarrow> broadcast e st' p = (st', [], None))))"
proof -
  have a: "no_orphans st \<longrightarrow>
      no_orphans (fst (subscribe e st sid payload)) \<and>
      no_orphans (fst (unsubscribe e st sid ch)) \<and>
      no_orphans (fst (clientEvent e st sid ch ev d)) \<and>
      no_orphans (fst (broadcast e st p)) \<and>
      no_orphans (fst (onClose e st sid))"
    using no_orphans_subscribe no_orphans_unsubscribe no_orphans_onClose
    by (simp add: clientEvent_state broadcast_state)
  have b: "clients st sid = Some cl \<and> subscribers st c = {sid} \<longrightarrow>
      (let st' = fst (unsubscribe e st sid (Some (JStr c)))
       in channels st' c = None \<and>
          (pub_channels p = [c] \<longrightarrow> broadcast e st' p = (st', [], None)))"
    using unsubscribe_last[of st sid cl c e]
    by (auto simp: Let_def intro: broadcast_absent_channel)
  show ?thesis using no_orphans_init a b by blast
qed

theorem no_orphan_channels_witness:
  "no_orphans demo_state \<and>
   clients demo_state ''2.2'' =
     Some \<lparr>cl_channels = [''private-chat'', ''test-channel''], cl_user = None\<rparr> \<and>
   subscribers demo_state ''test-channel'' = {''2.2''} \<and>
   pub_channels demo_publish = [''test-channel''] \<and>
   (let st' = fst (unsubscribe demo_env demo_state ''2.2'' (Some (JStr ''test-channel'')))
    in no_orphans st' \<and> channels st' ''test-channel'' = None \<and>
       broadcast demo_env st' demo_publish = (st', [], None))"
proof -
  have c: "clients demo_state ''2.2'' =
     Some \<lparr>cl_channels = [''private-chat'', ''test-channel''], cl_user = None\<rparr>"
    by (simp add: demo_state_def)
  have s: "subscribers demo_state ''test-channel'' = {''2.2''}"
    by (simp add: subscribers_def demo_state_def)
  have p: "pub_channels demo_publish = [''test-channel'']"
    by (simp add: demo_publish_def)
  note t = no_orphan_channels
    [of demo_state demo_env "''2.2''" _ "Some (JStr ''test-channel'')" _ _ demo_publish
      "\<lparr>cl_channels = [''private-chat'', ''test-channel''], cl_user = None\<rparr>" "''test-channel''"]
  show ?thesis using t no_orphans_demo c s p by (simp add: Let_def)
qed

section \<open>Broadcast\<close>

lemma fan_out_registered:
  assumes "consistent st"
  shows "fan_out st (subs_of st c) skip f =
           map (\<lambda>s. (s, f)) (filter (\<lambda>s. \<not> skip s) (subs_of st c))"
proof -
  have "filter (\<lambda>s. \<not> skip s \<and> clients st s \<noteq> None) (subs_of st c) =
        filter (\<lambda>s. \<not> skip s) (subs_of st c)"
    using consistent_registered[OF assms, of _ c] by (intro filter_cong) auto
  then show ?thesis by (simp add: fan_out_def)
qed

lemma broadcast_loop_spec:
  assumes "consistent st"
  shows "broadcast_loop st p cs = concat (map (spec_deliveries st p) cs)"
proof (induction cs)
  case Nil
  then show ?case by simp
next
  case (Cons c cs)
  show ?case
  proof (cases "channels st c")
    case None
    then show ?thesis using Cons by (simp add: spec_deliveries_def subs_of_def)
  next
    case (Some subs)
    then have "subs_of st c = subs" by (simp add: subs_of_def)
    then show ?thesis
      using Cons Some fan_out_registered[OF assms, of c "\<lambda>sid. Some sid = pub_socket_id p"]
      by (simp add: spec_deliveries_def)
  qed
qed

lemma count_list_deliveries:
  "distinct xs \<Longrightarrow>
   count_list (map (\<lambda>s. (s, f)) (filter P xs)) (s, f) = (if s \<in> set xs \<and> P s then 1 else 0)"
  by (induction xs) auto

lemma sets_distinct_subs: "sets_distinct st \<Longrightarrow> distinct (subs_of st c)"
  by (auto simp: sets_distinct_def subs_of_def split: option.splits)

lemma subscribers_subs_of: "subscribers st c = set (subs_of st c)"
  by (simp add: subscribers_def subs_of_def split: option.splits)

lemma sets_distinct_demo: "sets_distinct demo_state"
  unfolding sets_distinct_def demo_state_def by (auto split: if_splits)

text \<open>
  C8. In a state that satisfies the subscription invariant and whose subscriber sets
  are sets, a publish sends, for the channels of its list in order, the frame with the
  published name, the channel and the data to every subscriber of the channel except
  the one whose socket id is the excluded one: once to each of them for the channel,
  nothing at all to the excluded session, and to every subscriber when no socket id
  is excluded. The state does not change.
\<close>

theorem broadcast_delivery:
  "consistent st \<and> sets_distinct st \<longrightarrow>
     broadcast e st p = (st, concat (map (spec_deliveries st p) (pub_channels p)), None) \<and>
     (\<forall>c s. s \<in> subscribers st c \<longrightarrow>
        count_list (spec_deliveries st p c) (s, broadcast_frame p c) =
          (if Some s = pub_socket_id p then 0 else 1)) \<and>
     (\<forall>s. Some s = pub_socket_id p \<longrightarrow> s \<notin> fst ` set (fst (snd (broadcast e st p)))) \<and>
     (pub_socket_id p = None \<longrightarrow>
        (\<forall>c \<in> set (pub_channels p). \<forall>s \<in> subscribers st c.
           (s, broadcast_frame p c) \<in> set (fst (snd (broadcast e st p)))))"
proof (intro impI, elim conjE)
  assume co: "consistent st" and di: "sets_distinct st"
  have b: "broadcast e st p = (st, concat (map (spec_deliveries st p) (pub_channels p)), None)"
    by (simp add: broadcast_def broadcast_loop_spec[OF co])
  have c: "\<forall>c s. s \<in> subscribers st c \<longrightarrow>
        count_list (spec_deliveries st p c) (s, broadcast_frame p c) =
          (if Some s = pub_socket_id p then 0 else 1)"
    unfolding spec_deliveries_def
    by (simp add: count_list_deliveries[OF sets_distinct_subs[OF di]] subscribers_subs_of)
  have x: "\<forall>s. Some s = pub_socket_id p \<longrightarrow> s \<notin> fst ` set (fst (snd (broadcast e st p)))"
    unfolding b by (auto simp: spec_deliveries_def)
  have n: "pub_socket_id p = None \<longrightarrow>
        (\<forall>c \<in> set (pub_channels p). \<forall>s \<in> subscribers st c.
           (s, broadcast_frame p c) \<in> set (fst (snd (broadcast e st p))))"
    unfolding b by (auto simp: spec_deliveries_def subscribers_subs_of)
  show "broadcast e st p = (st, concat (map (spec_deliveries st p) (pub_channels p)), None) \<and>
     (\<forall>c s. s \<in> subscribers st c \<longrightarrow>
        count_list (spec_deliveries st p c) (s, broadcast_frame p c) =
          (if Some s = pub_socket_id p then 0 else 1)) \<and>
     (\<forall>s. Some s = pub_socket_id p \<longrightarrow> s \<notin> fst ` set (fst (snd (broadcast e st p)))) \<and>
     (pub_socket_id p = None \<longrightarrow>
        (\<forall>c \<in> set (pub_channels p). \<forall>s \<in> subscribers st c.
           (s, broadcast_frame p c) \<in> set (fst (snd (broadcast e st p)))))"
    using b c x n by blast
qed

theorem broadcast_delivery_witness:
  "consistent demo_state \<and> sets_distinct demo_state \<and>
   broadcast demo_env demo_state demo_publish =
     (demo_state,
      [(''2.2'', JObj [(''event'', JStr ''test-event''), (''channel'', JStr ''test-channel''),
                       (''data'', JStr ''hi'')])],
      None) \<and>
   broadcast demo_env demo_state demo_publish_excluding =
     (demo_state,
      [(''2.2'', JObj [(''event'', JStr ''test-event''), (''channel'', JStr ''private-chat''),
                       (''data'', JStr ''hi'')]),
       (''2.2'', JObj [(''event'', JStr ''test-event''), (''channel'', JStr ''test-channel''),
                       (''data'', JStr ''hi'')])],
      None)"
proof -
  have a: "concat (map (spec_deliveries demo_state demo_publish) (pub_channels demo_publish)) =
      [(''2.2'', JObj [(''event'', JStr ''test-event''), (''channel'', JStr ''test-channel''),
                       (''data'', JStr ''hi'')])]"
    by (simp add: spec_deliveries_def demo_publish_def demo_state_def subs_of_def
        broadcast_frame_def)
  have b: "concat (map (spec_deliveries demo_state demo_publish_excluding)
        (pub_channels demo_publish_excluding)) =
      [(''2.2'', JObj [(''event'', JStr ''test-event''), (''channel'', JStr ''private-chat''),
                       (''data'', JStr ''hi'')]),
       (''2.2'', JObj [(''event'', JStr ''test-event''), (''channel'', JStr ''test-channel''),
                       (''data'', JStr ''hi'')])]"
    by (simp add: spec_deliveries_def demo_publish_excluding_def demo_state_def subs_of_def
        broadcast_frame_def)
  show ?thesis
    using broadcast_delivery[of demo_state demo_env demo_publish]
      broadcast_delivery[of demo_state demo_env demo_publish_excluding]
      consistent_demo sets_distinct_demo
    by (simp add: a b)
qed

section \<open>Client events\<close>

lemma startsWith_client_not_pusher:
  assumes "startsWith ev ''client-''"
  shows "ev \<noteq> ''pusher:ping''" "ev \<noteq> ''pusher:subscribe''" "ev \<noteq> ''pusher:unsubscribe''"
    "ev \<noteq> []"
  using assms by (auto simp: startsWith_def)

lemma onMessage_client:
  assumes "json_parse e raw = Some msg" "msg \<noteq> JNull"
    "get_prop msg ''event'' = Some (JStr ev)" "startsWith ev ''client-''"
  shows "onMessage e st sid raw =
           clientEvent e st sid (get_prop msg ''channel'') ev (envelope_data e msg)"
  using assms startsWith_client_not_pusher[OF assms(4)]
  by (simp add: onMessage_def Let_def truthy_def)

lemma clientEvent_relay:
  assumes co: "consistent st" and reg: "clients st sid = Some cl"
    and mem: "c \<in> set (cl_channels cl)" and au: "auth_required c"
  shows "clientEvent e st sid (Some (JStr c)) ev d =
           (st, map (\<lambda>s. (s, client_frame ev c d cl)) (filter (\<lambda>s. s \<noteq> sid) (subs_of st c)), None)"
proof -
  have "sid \<in> subscribers st c"
    using co reg mem by (simp add: consistent_def session_channels_def)
  then obtain subs where s: "channels st c = Some subs"
    by (auto simp: subscribers_def split: option.splits)
  then have so: "subs_of st c = subs" by (simp add: subs_of_def)
  show ?thesis
    using reg mem au s fan_out_registered[OF co, of c "\<lambda>s. s = sid"] so
    by (auto simp: clientEvent_def auth_required_def)
qed

lemma clientEvent_drop:
  assumes "\<not> (c \<in> session_channels st sid \<and> auth_required c)"
  shows "clientEvent e st sid (Some (JStr c)) ev d = (st, [], None)"
  using assms
  by (auto simp: clientEvent_def session_channels_def auth_required_def split: option.splits)

lemma clientEvent_nonstring:
  assumes "\<forall>c. ch \<noteq> Some (JStr c)"
  shows "clientEvent e st sid ch ev d = (st, [], None)"
  using assms by (auto simp: clientEvent_def split: option.splits json.splits)

lemma client_frame_fields:
  "client_frame ev c d cl =
     JObj ([(''event'', JStr ev), (''channel'', JStr c), (''data'', JStr d)] @
           (case cl_user cl of Some ((r, Some uid), info) \<Rightarrow> [(''user_id'', uid)] | _ \<Rightarrow> []))"
  by (auto simp: client_frame_def split: option.splits)

text \<open>
  C7. A frame whose event name starts with \<^verbatim>\<open>client-\<close> is handled by \<^verbatim>\<open>clientEvent\<close>.
  In a state that satisfies the subscription invariant, the event is relayed when the
  sender has the named channel in its channel set and the name starts with
  \<^verbatim>\<open>private-\<close> or \<^verbatim>\<open>presence-\<close>: the frame with the event name, the channel, the data
  and the sender's user id, when it has one, goes to every subscriber of the channel
  other than the sender, and not to the sender. Otherwise, and when the channel is not
  a string, nothing is sent. The state never changes and nothing is raised.
\<close>

theorem client_relay:
  "(consistent st \<and> clients st sid = Some cl \<and> c \<in> set (cl_channels cl) \<and> auth_required c \<longrightarrow>
      clientEvent e st sid (Some (JStr c)) ev d =
        (st, map (\<lambda>s. (s, client_frame ev c d cl)) (filter (\<lambda>s. s \<noteq> sid) (subs_of st c)), None) \<and>
      sid \<notin> fst ` set (fst (snd (clientEvent e st sid (Some (JStr c)) ev d))) \<and>
      client_frame ev c d cl =
        JObj ([(''event'', JStr ev), (''channel'', JStr c), (''data'', JStr d)] @
              (case cl_user cl of Some ((r, Some uid), info) \<Rightarrow> [(''user_id'', uid)] | _ \<Rightarrow> []))) \<and>
   (\<not> (c \<in> session_channels st sid \<and> auth_required c) \<longrightarrow>
      clientEvent e st sid (Some (JStr c)) ev d = (st, [], None)) \<and>
   ((\<forall>c. ch \<noteq> Some (JStr c)) \<longrightarrow> clientEvent e st sid ch ev d = (st, [], None)) \<and>
   (json_parse e raw = Some msg \<and> msg \<noteq> JNull \<and> get_prop msg ''event'' = Some (JStr ev) \<and>
    startsWith ev ''client-'' \<longrightarrow>
      onMessage e st sid raw =
        clientEvent e st sid (get_prop msg ''channel'') ev (envelope_data e msg))"
proof -
  have a: "sid \<notin> fst ` set (fst (snd (clientEvent e st sid (Some (JStr c)) ev d)))"
    if "consistent st" "clients st sid = Some cl" "c \<in> set (cl_channels cl)" "auth_required c"
    unfolding clientEvent_relay[OF that] by auto
  show ?thesis
    using clientEvent_relay[of st sid cl c e ev d] a clientEvent_drop[of c st sid e ev d]
      clientEvent_nonstring[of ch e st sid ev d] onMessage_client[of e raw msg ev st sid]
      client_frame_fields[of ev c d cl]
    by blast
qed

theorem client_relay_witness:
  "clientEvent demo_env demo_state ''1.1'' (Some (JStr ''private-chat'')) ''client-typing'' ''{}'' =
     (demo_state,
      [(''2.2'', JObj [(''event'', JStr ''client-typing''), (''channel'', JStr ''private-chat''),
                       (''data'', JStr ''{}''), (''user_id'', JStr ''u1'')])],
      None) \<and>
   clientEvent demo_env demo_state ''2.2'' (Some (JStr ''test-channel'')) ''client-typing'' ''{}'' =
     (demo_state, [], None)"
proof -
  let ?cl = "\<lparr>cl_channels = [''presence-room'', ''private-chat''], cl_user = Some ann\<rparr>"
  have r: "clients demo_state ''1.1'' = Some ?cl" by (simp add: demo_state_def)
  have m: "''private-chat'' \<in> set (cl_channels ?cl)" by simp
  have p: "auth_required ''private-chat''" "\<not> auth_required ''test-channel''"
    by (simp_all add: auth_required_def startsWith_def)
  have s: "filter (\<lambda>s. s \<noteq> ''1.1'') (subs_of demo_state ''private-chat'') = [''2.2'']"
    by (simp add: subs_of_def demo_state_def)
  have f: "client_frame ''client-typing'' ''private-chat'' ''{}'' ?cl =
      JObj [(''event'', JStr ''client-typing''), (''channel'', JStr ''private-chat''),
            (''data'', JStr ''{}''), (''user_id'', JStr ''u1'')]"
    by (simp add: client_frame_def ann_def)
  note t1 = client_relay[of demo_state "''1.1''" ?cl "''private-chat''" demo_env
      "''client-typing''" "''{}''", THEN conjunct1, THEN mp,
      OF conjI[OF consistent_demo conjI[OF r conjI[OF m p(1)]]], THEN conjunct1]
  note t2 = client_relay[of demo_state "''2.2''" _ "''test-channel''" demo_env
      "''client-typing''" "''{}''", THEN conjunct2, THEN conjunct1, THEN mp]
  have a: "clientEvent demo_env demo_state ''2.2'' (Some (JStr ''test-channel'')) ''client-typing'' ''{}'' =
     (demo_state, [], None)"
    by (rule t2) (simp add: p)
  show ?thesis using t1 a by (simp add: s f)
qed

section \<open>Unknown sessions\<close>

lemma subscribe_unknown:
  "clients st sid = None \<Longrightarrow> payload \<noteq> JNull \<Longrightarrow> subscribe e st sid payload = (st, [], None)"
  by (simp add: subscribe_def)

lemma clientEvent_unknown:
  "clients st sid = None \<Longrightarrow> clientEvent e st sid ch ev d = (st, [], None)"
  by (simp add: clientEvent_def)

lemma onClose_unknown:
  "clients st sid = None \<Longrightarrow> onClose e st sid = (st, [], None)"
  by (simp add: onClose_def)

text \<open>
  C10, as the claim states it, fails: \<^verbatim>\<open>subscribe\<close> reads \<^verbatim>\<open>payload.channel\<close> before it
  looks the session up, so with the payload \<^verbatim>\<open>null\<close> and a session id that is not
  registered it raises a TypeError.
\<close>

theorem unknown_session_counterexample:
  "\<not> (clients demo_state ''9.9'' = None \<longrightarrow>
        snd (snd (subscribe demo_env demo_state ''9.9'' JNull)) = None)"
  by (simp add: demo_state_def subscribe_def)

text \<open>
  C10, amended. With a session id that is not in the registry, subscribe on a payload
  other than \<^verbatim>\<open>null\<close>, unsubscribe, client relay and disconnect cleanup return
  without an exception, send no frame and leave the state as it is. Subscribe on the
  payload \<^verbatim>\<open>null\<close> raises a TypeError; it sends no frame and leaves the state as it
  is, too.
\<close>

theorem unknown_session_noop:
  "clients st sid = None \<longrightarrow>
     (payload \<noteq> JNull \<longrightarrow> subscribe e st sid payload = (st, [], None)) \<and>
     subscribe e st sid JNull = (st, [], Some TypeError) \<and>
     unsubscribe e st sid ch = (st, [], None) \<and>
     clientEvent e st sid ch ev d = (st, [], None) \<and>
     onClose e st sid = (st, [], None)"
  using subscribe_unknown unsubscribe_unknown clientEvent_unknown onClose_unknown
  by (simp add: subscribe_def)

theorem unknown_session_noop_witness:
  "clients demo_state ''9.9'' = None \<and>
   subscribe demo_env demo_state ''9.9'' (JObj [(''channel'', JStr ''test-channel'')]) =
     (demo_state, [], None) \<and>
   unsubscribe demo_env demo_state ''9.9'' (Some (JStr ''test-channel'')) = (demo_state, [], None) \<and>
   clientEvent demo_env demo_state ''9.9'' (Some (JStr ''private-chat'')) ''client-typing'' ''{}'' =
     (demo_state, [], None) \<and>
   onClose demo_env demo_state ''9.9'' = (demo_state, [], None)"
proof -
  have u: "clients demo_state ''9.9'' = None" by (simp add: demo_state_def)
  show ?thesis
    using unknown_session_noop[of demo_state "''9.9''" "JObj [(''channel'', JStr ''test-channel'')]"
        demo_env "Some (JStr ''test-channel'')"]
      unknown_session_noop[of demo_state "''9.9''" _ demo_env "Some (JStr ''private-chat'')"
        "''client-typing''" "''{}''"] u
    by simp
qed

section \<open>Authorisation of protected channels\<close>



lemma str_split_nonempty: "str_split c s \<noteq> []"
  by (cases s) (auto split: list.splits)


lemma str_split_no_separator: "f \<in> set (str_split c s) \<Longrightarrow> c \<notin> set f"
proof (induction s arbitrary: f)
  case Nil
  then show ?case by simp
next
  case (Cons x xs)
  obtain g gs where s: "str_split c xs = g # gs"
    using str_split_nonempty[of c xs] by (cases "str_split c xs") auto
  show ?case
    using Cons.prems Cons.IH s by (auto split: if_splits)
qed







lemma auth_check_string:
  assumes "get_prop payload ''auth'' = Some (JStr a)" "a \<noteq> []"
  shows "auth_check e sid c payload =
     (case str_split CHR '':'' a of
        k # fs \<Rightarrow>
          if k \<noteq> PUSHER_APP_KEY e then Inr (Some ''Invalid key'')
          else (case fs of
                  g # rest \<Rightarrow>
                    if g \<noteq> hmac e (PUSHER_APP_SECRET e) (auth_base e sid c payload)
                    then Inr (Some ''Invalid signature'') else Inr None
                | [] \<Rightarrow> Inr (Some ''Invalid signature''))
      | [] \<Rightarrow> Inr (Some ''Invalid key''))"
  using assms by (auto simp: auth_check_def truthy_def Let_def split: list.splits)







section \<open>Frames that fail to parse\<close>

lemma subscribe_frames_exn: "snd (subscribe_frames e st sid cl c) \<noteq> Some SyntaxError"
  by (simp add: subscribe_frames_def Let_def split: option.splits prod.splits)

lemma join_exn: "snd (snd (join e st sid cl c)) \<noteq> Some SyntaxError"
proof -
  obtain st1 cl1 where a: "add_subscription st sid cl c = (st1, cl1)"
    by (cases "add_subscription st sid cl c") auto
  obtain out x where f: "subscribe_frames e st1 sid cl1 c = (out, x)"
    by (cases "subscribe_frames e st1 sid cl1 c") auto
  show ?thesis using subscribe_frames_exn[of e st1 sid cl1 c] a f by (simp add: join_def)
qed

lemma subscribe_outcomes:
  "(\<exists>x. subscribe e st sid payload = (st, [], x)) \<or>
   (\<exists>m. subscribe e st sid payload = (st, [(sid, error_frame m)], None)) \<or>
   (\<exists>st1 cl1 c. subscribe e st sid payload = join e st1 sid cl1 c)"
  unfolding subscribe_def
  by (simp split: option.splits json.splits sum.splits prod.splits) blast

lemma subscribe_syntax_error:
  assumes "snd (snd (subscribe e st sid payload)) = Some SyntaxError"
  shows "subscribe e st sid payload = (st, [], Some SyntaxError)"
proof -
  consider x where "subscribe e st sid payload = (st, [], x)"
    | m where "subscribe e st sid payload = (st, [(sid, error_frame m)], None)"
    | st1 cl1 c where "subscribe e st sid payload = join e st1 sid cl1 c"
    using subscribe_outcomes[of e st sid payload] by blast
  then show ?thesis
  proof cases
    case 1
    then show ?thesis using assms by simp
  next
    case 2
    then show ?thesis using assms by simp
  next
    case 3
    then show ?thesis using assms join_exn[of e st1 sid cl1 c] by simp
  qed
qed

lemma unsubscribe_exn: "snd (snd (unsubscribe e st sid ch)) \<noteq> Some SyntaxError"
  by (simp add: unsubscribe_def Let_def split: option.splits json.splits prod.splits)

lemma clientEvent_exn: "snd (snd (clientEvent e st sid ch ev d)) = None"
  by (simp add: clientEvent_def split: option.splits json.splits)

lemma onMessage_outcomes:
  "(\<exists>out. onMessage e st sid raw = (st, out, None)) \<or>
   onMessage e st sid raw = (st, [], Some TypeError) \<or>
   onMessage e st sid raw = (st, [], Some SyntaxError) \<or>
   (\<exists>payload. onMessage e st sid raw = subscribe e st sid payload) \<or>
   (\<exists>ch. onMessage e st sid raw = unsubscribe e st sid ch) \<or>
   (\<exists>ch ev d. onMessage e st sid raw = clientEvent e st sid ch ev d)"
  unfolding onMessage_def Let_def
  by (simp split: option.splits json.splits) blast

lemma onMessage_syntax_error:
  assumes "snd (snd (onMessage e st sid raw)) = Some SyntaxError"
  shows "onMessage e st sid raw = (st, [], Some SyntaxError)"
proof -
  consider out where "onMessage e st sid raw = (st, out, None)"
    | "onMessage e st sid raw = (st, [], Some TypeError)"
    | "onMessage e st sid raw = (st, [], Some SyntaxError)"
    | payload where "onMessage e st sid raw = subscribe e st sid payload"
    | ch where "onMessage e st sid raw = unsubscribe e st sid ch"
    | ch ev d where "onMessage e st sid raw = clientEvent e st sid ch ev d"
    using onMessage_outcomes[of e st sid raw] by blast
  then show ?thesis
  proof cases
    case 4
    then show ?thesis using assms subscribe_syntax_error[of e st sid payload] by simp
  next
    case 5
    then show ?thesis using assms unsubscribe_exn[of e st sid ch] by simp
  next
    case 6
    then show ?thesis using assms clientEvent_exn[of e st sid ch ev d] by simp
  qed (use assms in simp_all)
qed

lemma onMessage_bad_envelope:
  "json_parse e raw = None \<Longrightarrow> onMessage e st sid raw = (st, [], None)"
  by (simp add: onMessage_def)

lemma onMessage_bad_data:
  assumes "json_parse e raw = Some msg" "msg \<noteq> JNull"
    "get_prop msg ''event'' = Some (JStr ''pusher:subscribe'') \<or>
     get_prop msg ''event'' = Some (JStr ''pusher:unsubscribe'')"
    "json_parse e (envelope_data e msg) = None"
  shows "onMessage e st sid raw = (st, [], Some SyntaxError)"
  using assms by (auto simp: onMessage_def Let_def)

lemma subscribe_bad_channel_data:
  assumes "clients st sid = Some cl" "get_prop payload ''channel'' = Some (JStr c)"
    "is_presence c" "auth_check e sid c payload = Inr None"
    "json_parse e (js_to_string e (get_prop payload ''channel_data'')) = None"
  shows "subscribe e st sid payload = (st, [], Some SyntaxError)"
proof -
  have "payload \<noteq> JNull" using assms(2) by (auto simp: get_prop_def)
  then show ?thesis
    using assms is_presence_auth_required[OF assms(3)]
    by (simp add: subscribe_def presence_join_def)
qed

lemma onMessage_subscribe:
  assumes "json_parse e raw = Some msg" "msg \<noteq> JNull"
    "get_prop msg ''event'' = Some (JStr ''pusher:subscribe'')"
    "json_parse e (envelope_data e msg) = Some payload"
  shows "onMessage e st sid raw = subscribe e st sid payload"
  using assms by (simp add: onMessage_def Let_def)

lemma demo_parse_oops: "json_parse demo_env ''oops'' = None"
  by (simp add: demo_defs)

text \<open>
  C2, as the claim states it, fails: the authorisation of a subscribe comes before the
  parse of its channel data. A subscribe to the presence room whose channel data is
  not JSON and that carries no auth is answered with the error of the authorisation.
\<close>

theorem parse_failure_counterexample:
  "json_parse demo_env ''oops'' = None \<and>
   json_parse demo_env frame_bad_channel_data =
     Some (JObj [(''event'', JStr ''pusher:subscribe''),
                 (''data'', JObj [(''channel'', JStr ''presence-room''),
                                  (''channel_data'', JStr ''oops'')])]) \<and>
   onMessage demo_env demo_state ''3.3'' frame_bad_channel_data =
     (demo_state, [(''3.3'', error_frame ''Auth required'')], None)"
  by (simp add: demo_defs onMessage_def Let_def get_prop_def envelope_data_def truthy_def
      subscribe_def auth_required_def startsWith_def auth_check_def)

text \<open>
  C2, amended. When a parse fails while a frame is processed, no frame is sent and the
  state is left as it is. The envelope that is not JSON is dropped and the handler
  returns. A \<^verbatim>\<open>pusher:subscribe\<close> or \<^verbatim>\<open>pusher:unsubscribe\<close> whose data string is not JSON,
  and a subscribe to a presence channel by a registered session that passes the
  authorisation and whose channel data is not JSON, end with a SyntaxError that
  nothing catches, before anything was sent or changed. Whenever the handler ends
  with a SyntaxError, nothing was sent and nothing was changed.
\<close>

theorem parse_failure_silent:
  "(json_parse e raw = None \<longrightarrow> onMessage e st sid raw = (st, [], None)) \<and>
   (json_parse e raw = Some msg \<and> msg \<noteq> JNull \<and>
    (get_prop msg ''event'' = Some (JStr ''pusher:subscribe'') \<or>
     get_prop msg ''event'' = Some (JStr ''pusher:unsubscribe'')) \<and>
    json_parse e (envelope_data e msg) = None \<longrightarrow>
      onMessage e st sid raw = (st, [], Some SyntaxError)) \<and>
   (json_parse e raw = Some msg \<and> msg \<noteq> JNull \<and>
    get_prop msg ''event'' = Some (JStr ''pusher:subscribe'') \<and>
    json_parse e (envelope_data e msg) = Some payload \<and>
    clients st sid = Some cl \<and> get_prop payload ''channel'' = Some (JStr c) \<and> is_presence c \<and>
    auth_check e sid c payload = Inr None \<and>
    json_parse e (js_to_string e (get_prop payload ''channel_data'')) = None \<longrightarrow>
      onMessage e st sid raw = (st, [], Some SyntaxError)) \<and>
   (snd (snd (onMessage e st sid raw)) = Some SyntaxError \<longrightarrow>
      onMessage e st sid raw = (st, [], Some SyntaxError))"
proof (intro conjI impI)
  assume "json_parse e raw = None"
  then show "onMessage e st sid raw = (st, [], None)" by (rule onMessage_bad_envelope)
next
  assume "json_parse e raw = Some msg \<and> msg \<noteq> JNull \<and>
    (get_prop msg ''event'' = Some (JStr ''pusher:subscribe'') \<or>
     get_prop msg ''event'' = Some (JStr ''pusher:unsubscribe'')) \<and>
    json_parse e (envelope_data e msg) = None"
  then show "onMessage e st sid raw = (st, [], Some SyntaxError)"
    using onMessage_bad_data[of e raw msg st sid] by blast
next
  assume h: "json_parse e raw = Some msg \<and> msg \<noteq> JNull \<and>
    get_prop msg ''event'' = Some (JStr ''pusher:subscribe'') \<and>
    json_parse e (envelope_data e msg) = Some payload \<and>
    clients st sid = Some cl \<and> get_prop payload ''channel'' = Some (JStr c) \<and> is_presence c \<and>
    auth_check e sid c payload = Inr None \<and>
    json_parse e (js_to_string e (get_prop payload ''channel_data'')) = None"
  then have "onMessage e st sid raw = subscribe e st sid payload"
    using onMessage_subscribe[of e raw msg payload st sid] by blast
  moreover have "subscribe e st sid payload = (st, [], Some SyntaxError)"
    using h subscribe_bad_channel_data[of st sid cl payload c e] by blast
  ultimately show "onMessage e st sid raw = (st, [], Some SyntaxError)" by simp
next
  assume "snd (snd (onMessage e st sid raw)) = Some SyntaxError"
  then show "onMessage e st sid raw = (st, [], Some SyntaxError)"
    by (rule onMessage_syntax_error)
qed

theorem parse_failure_silent_witness:
  "json_parse demo_env ''not json'' = None \<and>
   onMessage demo_env demo_state ''3.3'' ''not json'' = (demo_state, [], None) \<and>
   json_parse demo_env ''oops'' = None \<and>
   onMessage demo_env demo_state ''3.3'' frame_bad_data = (demo_state, [], Some SyntaxError) \<and>
   onMessage demo_env demo_state ''3.3'' frame_bad_channel_data_authorised =
     (demo_state, [], Some SyntaxError)"
proof -
  let ?msg1 = "JObj [(''event'', JStr ''pusher:subscribe''), (''data'', JStr ''oops'')]"
  let ?pay = "JObj [(''channel'', JStr ''presence-room''), (''auth'', JStr ''app-key:0616''),
               (''channel_data'', JStr ''oops'')]"
  let ?msg2 = "JObj [(''event'', JStr ''pusher:subscribe''), (''data'', ?pay)]"
  have n: "json_parse demo_env ''not json'' = None" by (simp add: demo_defs)
  have p1: "json_parse demo_env frame_bad_data = Some ?msg1" by (simp add: demo_defs)
  have e1: "get_prop ?msg1 ''event'' = Some (JStr ''pusher:subscribe'')"
    by (simp add: get_prop_def)
  have d1: "json_parse demo_env (envelope_data demo_env ?msg1) = None"
    by (simp add: envelope_data_def get_prop_def demo_defs)
  have p2: "json_parse demo_env frame_bad_channel_data_authorised = Some ?msg2"
    by (simp add: demo_defs)
  have e2: "get_prop ?msg2 ''event'' = Some (JStr ''pusher:subscribe'')"
    by (simp add: get_prop_def)
  have d2: "json_parse demo_env (envelope_data demo_env ?msg2) = Some ?pay"
    by (simp add: envelope_data_def get_prop_def truthy_def demo_defs)
  have c2: "get_prop ?pay ''channel'' = Some (JStr ''presence-room'')"
    by (simp add: get_prop_def)
  have a2: "auth_check demo_env ''3.3'' ''presence-room'' ?pay = Inr None"
    by (simp add: auth_check_def get_prop_def truthy_def demo_env_def hmac_def
      demo_digest_def hex_byte_def hex_digit_def auth_base_def js_to_string_def)
  have j2: "json_parse demo_env (js_to_string demo_env (get_prop ?pay ''channel_data'')) = None"
    by (simp add: get_prop_def js_to_string_def demo_defs)
  note t1 = parse_failure_silent[of demo_env "''not json''" demo_state "''3.3''",
      THEN conjunct1, THEN mp, OF n]
  note t2 = parse_failure_silent[of demo_env frame_bad_data demo_state "''3.3''" ?msg1,
      THEN conjunct2, THEN conjunct1, THEN mp,
      OF conjI[OF p1 conjI[OF _ conjI[OF disjI1[OF e1] d1]]]]
  note t3 = parse_failure_silent[of demo_env frame_bad_channel_data_authorised
      demo_state "''3.3''" ?msg2 ?pay "\<lparr>cl_channels = [], cl_user = None\<rparr>" "''presence-room''",
      THEN conjunct2, THEN conjunct2, THEN conjunct1, THEN mp,
      OF conjI[OF p2 conjI[OF _ conjI[OF e2 conjI[OF d2 conjI[OF demo_registered
        conjI[OF c2 conjI[OF demo_room_presence conjI[OF a2 j2]]]]]]]]]
  show ?thesis
    by (intro conjI) (rule n, rule t1, rule demo_parse_oops, rule t2, simp, rule t3, simp)
qed

section \<open>Reachable states\<close>

text \<open>
  The three properties of a state that the theorems above assume hold in every state
  the object can reach.
\<close>

lemma onMessage_invariant:
  assumes sub: "\<And>payload. P (fst (subscribe e st sid payload))"
    and unsub: "\<And>ch. P (fst (unsubscribe e st sid ch))"
    and st: "P st"
  shows "P (fst (onMessage e st sid raw))"
proof -
  consider out where "onMessage e st sid raw = (st, out, None)"
    | "onMessage e st sid raw = (st, [], Some TypeError)"
    | "onMessage e st sid raw = (st, [], Some SyntaxError)"
    | payload where "onMessage e st sid raw = subscribe e st sid payload"
    | ch where "onMessage e st sid raw = unsubscribe e st sid ch"
    | ch ev d where "onMessage e st sid raw = clientEvent e st sid ch ev d"
    using onMessage_outcomes[of e st sid raw] by blast
  then show ?thesis
  proof cases
    case 4
    then show ?thesis using sub by simp
  next
    case 5
    then show ?thesis using unsub by simp
  next
    case 6
    then show ?thesis using st by (simp add: clientEvent_state)
  qed (use st in simp_all)
qed

lemma consistent_acceptWebSocket:
  assumes "consistent st" "clients st sid = None"
  shows "consistent (fst (acceptWebSocket e st sid))"
proof -
  have "sid \<notin> subscribers st c" for c
    using assms by (simp add: consistent_def session_channels_def)
  then show ?thesis
    using assms(1)
    by (auto simp: consistent_def acceptWebSocket_def subscribers_def session_channels_def)
qed

lemma acceptWebSocket_channels: "channels (fst (acceptWebSocket e st sid)) = channels st"
  by (simp add: acceptWebSocket_def)

lemma sets_distinct_init: "sets_distinct init_state"
  by (simp add: sets_distinct_def init_state_def)

lemma reachable_invariants:
  "reachable e st \<Longrightarrow> consistent st \<and> no_orphans st \<and> sets_distinct st"
proof (induction rule: reachable.induct)
  case start
  then show ?case by (simp add: consistent_init no_orphans_init sets_distinct_init)
next
  case (connect st sid)
  then show ?case
    using consistent_acceptWebSocket[of st sid e]
    by (simp add: no_orphans_def sets_distinct_def acceptWebSocket_channels)
next
  case (message st sid raw)
  then have c: "consistent st" and n: "no_orphans st" and d: "sets_distinct st" by simp_all
  have "consistent (fst (onMessage e st sid raw))"
    by (rule onMessage_invariant[where P = consistent])
      (rule consistent_subscribe[OF c], rule consistent_unsubscribe[OF c], rule c)
  moreover have "no_orphans (fst (onMessage e st sid raw))"
    by (rule onMessage_invariant[where P = no_orphans])
      (rule no_orphans_subscribe[OF n], rule no_orphans_unsubscribe[OF n], rule n)
  moreover have "sets_distinct (fst (onMessage e st sid raw))"
    by (rule onMessage_invariant[where P = sets_distinct])
      (rule sets_distinct_subscribe[OF d], rule sets_distinct_unsubscribe[OF d], rule d)
  ultimately show ?case by simp
next
  case (publish st p)
  then show ?case by (simp add: broadcast_state)
next
  case (disconnect st sid)
  then show ?case
    using consistent_onClose no_orphans_onClose sets_distinct_onClose by blast
qed

end
